theory Spec2Isabelle
  imports Main "HOL-Library.Word" "HOL-Library.Sublist"
begin

section \<open>Machine types\<close>

type_synonym int32 = "32 word"
type_synonym uint32 = "32 word"
type_synonym uint64 = "64 word"
type_synonym uint8 = "8 word"

section \<open>Constants of the platform headers\<close>

text \<open>
  \<^verbatim>\<open>BiometricsFingerprint.cpp\<close> names constants that \<^verbatim>\<open>hardware/fingerprint.h\<close>,
  \<^verbatim>\<open>hardware/hw_auth_token.h\<close>, \<^verbatim>\<open>hardware/hardware.h\<close> and \<^verbatim>\<open>limits.h\<close> declare. Those
  headers are not part of the repository, so the values are parameters of the model: every
  function that reads one takes the record below. \<open>SIZEOF_hw_auth_token_t\<close> stands for
  \<^verbatim>\<open>sizeof(msg->data.authenticated.hat)\<close>.
\<close>

record hal_consts =
  FINGERPRINT_ERROR_HW_UNAVAILABLE :: int32
  FINGERPRINT_ERROR_UNABLE_TO_PROCESS :: int32
  FINGERPRINT_ERROR_TIMEOUT :: int32
  FINGERPRINT_ERROR_NO_SPACE :: int32
  FINGERPRINT_ERROR_CANCELED :: int32
  FINGERPRINT_ERROR_UNABLE_TO_REMOVE :: int32
  FINGERPRINT_ERROR_LOCKOUT :: int32
  FINGERPRINT_ERROR_VENDOR_BASE :: int32
  FINGERPRINT_ACQUIRED_GOOD :: int32
  FINGERPRINT_ACQUIRED_PARTIAL :: int32
  FINGERPRINT_ACQUIRED_INSUFFICIENT :: int32
  FINGERPRINT_ACQUIRED_IMAGER_DIRTY :: int32
  FINGERPRINT_ACQUIRED_TOO_SLOW :: int32
  FINGERPRINT_ACQUIRED_TOO_FAST :: int32
  FINGERPRINT_ACQUIRED_VENDOR_BASE :: int32
  FINGERPRINT_ERROR :: int32
  FINGERPRINT_ACQUIRED :: int32
  FINGERPRINT_TEMPLATE_ENROLLING :: int32
  FINGERPRINT_TEMPLATE_REMOVED :: int32
  FINGERPRINT_AUTHENTICATED :: int32
  FINGERPRINT_TEMPLATE_ENUMERATING :: int32
  SIZEOF_hw_auth_token_t :: nat
  PATH_MAX :: nat
  kVersion :: uint32

text \<open>
  One instance, used where a theorem is applied to concrete data: the values the Android
  headers give these names (the vendor bases are 1000, the token structure is 69 bytes
  long, as the \<^verbatim>\<open>hidl_array<uint8_t, 69>\<close> of \<^verbatim>\<open>enroll\<close> says).
\<close>

definition android_consts :: hal_consts where
  "android_consts = \<lparr>
     FINGERPRINT_ERROR_HW_UNAVAILABLE = 1,
     FINGERPRINT_ERROR_UNABLE_TO_PROCESS = 2,
     FINGERPRINT_ERROR_TIMEOUT = 3,
     FINGERPRINT_ERROR_NO_SPACE = 4,
     FINGERPRINT_ERROR_CANCELED = 5,
     FINGERPRINT_ERROR_UNABLE_TO_REMOVE = 6,
     FINGERPRINT_ERROR_LOCKOUT = 7,
     FINGERPRINT_ERROR_VENDOR_BASE = 1000,
     FINGERPRINT_ACQUIRED_GOOD = 0,
     FINGERPRINT_ACQUIRED_PARTIAL = 1,
     FINGERPRINT_ACQUIRED_INSUFFICIENT = 2,
     FINGERPRINT_ACQUIRED_IMAGER_DIRTY = 3,
     FINGERPRINT_ACQUIRED_TOO_SLOW = 4,
     FINGERPRINT_ACQUIRED_TOO_FAST = 5,
     FINGERPRINT_ACQUIRED_VENDOR_BASE = 1000,
     FINGERPRINT_ERROR = - 1,
     FINGERPRINT_ACQUIRED = 1,
     FINGERPRINT_TEMPLATE_ENROLLING = 3,
     FINGERPRINT_TEMPLATE_REMOVED = 4,
     FINGERPRINT_AUTHENTICATED = 5,
     FINGERPRINT_TEMPLATE_ENUMERATING = 6,
     SIZEOF_hw_auth_token_t = 69,
     PATH_MAX = 4096,
     kVersion = 513 \<rparr>"

section \<open>The enumerations of the client interface\<close>

datatype RequestStatus =
    SYS_UNKNOWN | SYS_OK | SYS_ENOENT | SYS_EINTR | SYS_EIO | SYS_EAGAIN | SYS_ENOMEM
  | SYS_EACCES | SYS_EFAULT | SYS_EBUSY | SYS_EINVAL | SYS_ENOSPC | SYS_ETIMEDOUT

datatype FingerprintError =
    ERROR_HW_UNAVAILABLE | ERROR_UNABLE_TO_PROCESS | ERROR_TIMEOUT | ERROR_NO_SPACE
  | ERROR_CANCELED | ERROR_UNABLE_TO_REMOVE | ERROR_LOCKOUT | ERROR_VENDOR

datatype FingerprintAcquiredInfo =
    ACQUIRED_GOOD | ACQUIRED_PARTIAL | ACQUIRED_INSUFFICIENT | ACQUIRED_IMAGER_DIRTY
  | ACQUIRED_TOO_SLOW | ACQUIRED_TOO_FAST | ACQUIRED_VENDOR

section \<open>The three translation tables\<close>

text \<open>
  \<^verbatim>\<open>ErrorFilter\<close>: a \<^verbatim>\<open>switch\<close> over literal case labels; the default branch logs
  and returns \<^verbatim>\<open>SYS_UNKNOWN\<close>.
\<close>

definition ErrorFilter :: "int32 \<Rightarrow> RequestStatus" where
  "ErrorFilter error =
     (if error = 0 then SYS_OK
      else if error = - 2 then SYS_ENOENT
      else if error = - 4 then SYS_EINTR
      else if error = - 5 then SYS_EIO
      else if error = - 11 then SYS_EAGAIN
      else if error = - 12 then SYS_ENOMEM
      else if error = - 13 then SYS_EACCES
      else if error = - 14 then SYS_EFAULT
      else if error = - 16 then SYS_EBUSY
      else if error = - 22 then SYS_EINVAL
      else if error = - 28 then SYS_ENOSPC
      else if error = - 110 then SYS_ETIMEDOUT
      else SYS_UNKNOWN)"

text \<open>
  \<^verbatim>\<open>VendorErrorFilter(error, &vendorCode)\<close>: the out-parameter is the second component
  of the result. It is set to 0 before the \<^verbatim>\<open>switch\<close>; only the default branch, for a
  code at or above the vendor base (a signed comparison), overwrites it. A code that leaves
  the \<^verbatim>\<open>switch\<close> falls to the final \<^verbatim>\<open>return\<close>.
\<close>

definition VendorErrorFilter :: "hal_consts \<Rightarrow> int32 \<Rightarrow> FingerprintError \<times> int32" where
  "VendorErrorFilter c error =
     (if error = FINGERPRINT_ERROR_HW_UNAVAILABLE c then (ERROR_HW_UNAVAILABLE, 0)
      else if error = FINGERPRINT_ERROR_UNABLE_TO_PROCESS c then (ERROR_UNABLE_TO_PROCESS, 0)
      else if error = FINGERPRINT_ERROR_TIMEOUT c then (ERROR_TIMEOUT, 0)
      else if error = FINGERPRINT_ERROR_NO_SPACE c then (ERROR_NO_SPACE, 0)
      else if error = FINGERPRINT_ERROR_CANCELED c then (ERROR_CANCELED, 0)
      else if error = FINGERPRINT_ERROR_UNABLE_TO_REMOVE c then (ERROR_UNABLE_TO_REMOVE, 0)
      else if error = FINGERPRINT_ERROR_LOCKOUT c then (ERROR_LOCKOUT, 0)
      else if FINGERPRINT_ERROR_VENDOR_BASE c \<le>s error
        then (ERROR_VENDOR, error - FINGERPRINT_ERROR_VENDOR_BASE c)
      else (ERROR_UNABLE_TO_PROCESS, 0))"

definition VendorAcquiredFilter ::
  "hal_consts \<Rightarrow> int32 \<Rightarrow> FingerprintAcquiredInfo \<times> int32" where
  "VendorAcquiredFilter c info =
     (if info = FINGERPRINT_ACQUIRED_GOOD c then (ACQUIRED_GOOD, 0)
      else if info = FINGERPRINT_ACQUIRED_PARTIAL c then (ACQUIRED_PARTIAL, 0)
      else if info = FINGERPRINT_ACQUIRED_INSUFFICIENT c then (ACQUIRED_INSUFFICIENT, 0)
      else if info = FINGERPRINT_ACQUIRED_IMAGER_DIRTY c then (ACQUIRED_IMAGER_DIRTY, 0)
      else if info = FINGERPRINT_ACQUIRED_TOO_SLOW c then (ACQUIRED_TOO_SLOW, 0)
      else if info = FINGERPRINT_ACQUIRED_TOO_FAST c then (ACQUIRED_TOO_FAST, 0)
      else if FINGERPRINT_ACQUIRED_VENDOR_BASE c \<le>s info
        then (ACQUIRED_VENDOR, info - FINGERPRINT_ACQUIRED_VENDOR_BASE c)
      else (ACQUIRED_INSUFFICIENT, 0))"

text \<open>The case labels of the two vendor tables, in source order.\<close>

definition error_labels :: "hal_consts \<Rightarrow> int32 list" where
  "error_labels c =
     [FINGERPRINT_ERROR_HW_UNAVAILABLE c, FINGERPRINT_ERROR_UNABLE_TO_PROCESS c,
      FINGERPRINT_ERROR_TIMEOUT c, FINGERPRINT_ERROR_NO_SPACE c,
      FINGERPRINT_ERROR_CANCELED c, FINGERPRINT_ERROR_UNABLE_TO_REMOVE c,
      FINGERPRINT_ERROR_LOCKOUT c]"

definition acquired_labels :: "hal_consts \<Rightarrow> int32 list" where
  "acquired_labels c =
     [FINGERPRINT_ACQUIRED_GOOD c, FINGERPRINT_ACQUIRED_PARTIAL c,
      FINGERPRINT_ACQUIRED_INSUFFICIENT c, FINGERPRINT_ACQUIRED_IMAGER_DIRTY c,
      FINGERPRINT_ACQUIRED_TOO_SLOW c, FINGERPRINT_ACQUIRED_TOO_FAST c]"

section \<open>The bridge instance and what surrounds it\<close>

text \<open>
  The vendor driver is an opaque object behind function pointers. The model keeps what the
  bridge reads from it: the pointer value (\<^verbatim>\<open>reinterpret_cast<uint64_t>(mDevice)\<close>), the
  version field, the return code of \<^verbatim>\<open>set_notify\<close>, and the return codes of the two
  driver entry points used below.
\<close>

record xiaomi_fingerprint_device =
  dev_address :: uint64
  dev_version :: uint32
  dev_set_notify :: int32
  dev_set_active_group :: "uint32 \<Rightarrow> string \<Rightarrow> int32"
  dev_extCmd :: "int32 \<Rightarrow> int32 \<Rightarrow> int32"

text \<open>The calls of \<^verbatim>\<open>IBiometricsFingerprintClientCallback\<close>, with their arguments.\<close>

datatype cb_call =
    onError uint64 FingerprintError int32
  | onAcquired uint64 FingerprintAcquiredInfo int32
  | onEnrollResult uint64 uint32 uint32 uint32
  | onRemoved uint64 uint32 uint32 uint32
  | onAuthenticated uint64 uint32 uint32 "uint8 list"
  | onEnumerate uint64 uint32 uint32 uint32

text \<open>
  Everything a function does to the outside is an entry of its trace, in program order.
  \<open>SendAuthenticatedBoostHint\<close> marks an entry into the method of that name.
\<close>

datatype event =
    Callback cb_call
  | SendAuthenticatedBoostHint
  | GetPowerService
  | IsBoostSupported string
  | SetBoost string int32
  | DriverSetActiveGroup uint32 string
  | DriverExtCmd int32 int32
  | OpenHal string
  | SetProperty string string
  | StartFodWatcher

text \<open>
  A registered client callback is the function that says whether the transport of a call
  succeeded (\<^verbatim>\<open>.isOk()\<close>); \<^verbatim>\<open>nullptr\<close> is \<open>None\<close>. The power-service proxy is a handle.
\<close>

record bridge =
  mClientCallback :: "(cb_call \<Rightarrow> bool) option"
  mDevice :: "xiaomi_fingerprint_device option"
  mFod :: bool
  mBoostHintIsSupported :: bool
  mBoostHintSupportIsChecked :: bool
  mPowerHalExtAidl :: "nat option"

text \<open>
  The \<^verbatim>\<open>int32_t\<close> results of the boost notifier are \<^verbatim>\<open>android::NO_ERROR\<close> and three
  negated \<^verbatim>\<open>errno\<close> values, which POSIX keeps distinct and positive.
\<close>

datatype status_t = NO_ERROR | MINUS_EINVAL | MINUS_ENOTCONN | MINUS_EOPNOTSUPP

text \<open>The outcome of a binder transaction, as the code inspects it.\<close>

datatype binder_status = STATUS_OK | EX_TRANSACTION_FAILED | EX_OTHER

text \<open>
  What the power service answers during one call of a bridge method: the proxy that the
  service lookup and the extension cast yield (\<open>None\<close> when the cast gives a null proxy),
  the answer to \<^verbatim>\<open>isBoostSupported\<close> (status, and the value left in \<^verbatim>\<open>isSupported\<close>),
  and the status of \<^verbatim>\<open>setBoost\<close>.
\<close>

record power_service =
  fromBinder :: "nat option"
  isBoostSupported :: "string \<Rightarrow> binder_status \<times> bool"
  setBoost :: "string \<Rightarrow> int32 \<Rightarrow> binder_status"

definition kBoostHint :: string where
  "kBoostHint = ''LAUNCH''"

definition kBoostDurationMs :: int32 where
  "kBoostDurationMs = 2000"

section \<open>The boost notifier\<close>

definition connectPowerHalExt :: "power_service \<Rightarrow> bridge \<Rightarrow> status_t \<times> bridge \<times> event list" where
  "connectPowerHalExt pw s =
     (if mPowerHalExtAidl s \<noteq> None then (NO_ERROR, s, [])
      else
        let s' = s\<lparr>mPowerHalExtAidl := fromBinder pw\<rparr> in
        if mPowerHalExtAidl s' = None then (MINUS_EINVAL, s', [GetPowerService])
        else (NO_ERROR, s', [GetPowerService]))"

definition checkPowerHalExtBoostSupport ::
  "power_service \<Rightarrow> string \<Rightarrow> bridge \<Rightarrow> status_t \<times> bridge \<times> event list" where
  "checkPowerHalExtBoostSupport pw boost s =
     (if boost = [] then (MINUS_EINVAL, s, [])
      else
        let (rc, s1, t1) = connectPowerHalExt pw s in
        if rc \<noteq> NO_ERROR then (MINUS_EINVAL, s1, t1)
        else
          let (ret, isSupported) = isBoostSupported pw boost;
              t2 = t1 @ [IsBoostSupported boost] in
          if ret \<noteq> STATUS_OK then
            (if ret = EX_TRANSACTION_FAILED
               then (MINUS_ENOTCONN, s1\<lparr>mPowerHalExtAidl := None\<rparr>, t2)
             else (MINUS_EINVAL, s1, t2))
          else if \<not> isSupported then (MINUS_EOPNOTSUPP, s1, t2)
          else (NO_ERROR, s1, t2))"

definition sendPowerHalExtBoost ::
  "power_service \<Rightarrow> string \<Rightarrow> int32 \<Rightarrow> bridge \<Rightarrow> status_t \<times> bridge \<times> event list" where
  "sendPowerHalExtBoost pw boost durationMs s =
     (if boost = [] then (MINUS_EINVAL, s, [])
      else
        let (rc, s1, t1) = connectPowerHalExt pw s in
        if rc \<noteq> NO_ERROR then (MINUS_EINVAL, s1, t1)
        else
          let ret = setBoost pw boost durationMs;
              t2 = t1 @ [SetBoost boost durationMs] in
          if ret \<noteq> STATUS_OK then
            (if ret = EX_TRANSACTION_FAILED
               then (MINUS_ENOTCONN, s1\<lparr>mPowerHalExtAidl := None\<rparr>, t2)
             else (MINUS_EINVAL, s1, t2))
          else (NO_ERROR, s1, t2))"

definition isBoostHintSupported :: "power_service \<Rightarrow> bridge \<Rightarrow> status_t \<times> bridge \<times> event list" where
  "isBoostHintSupported pw s =
     (if mBoostHintSupportIsChecked s
        then ((if mBoostHintIsSupported s then NO_ERROR else MINUS_EOPNOTSUPP), s, [])
      else
        let (ret, s1, t) = checkPowerHalExtBoostSupport pw kBoostHint s in
        if ret = NO_ERROR
          then (ret, s1\<lparr>mBoostHintIsSupported := True, mBoostHintSupportIsChecked := True\<rparr>, t)
        else if ret = MINUS_EOPNOTSUPP
          then (ret, s1\<lparr>mBoostHintSupportIsChecked := True\<rparr>, t)
        else (ret, s1, t))"

definition sendAuthenticatedBoostHint ::
  "power_service \<Rightarrow> bridge \<Rightarrow> status_t \<times> bridge \<times> event list" where
  "sendAuthenticatedBoostHint pw s =
     (let (ret, s1, t1) = isBoostHintSupported pw s in
      if ret \<noteq> NO_ERROR then (ret, s1, SendAuthenticatedBoostHint # t1)
      else
        let (ret2, s2, t2) = sendPowerHalExtBoost pw kBoostHint kBoostDurationMs s1 in
        (ret2, s2, SendAuthenticatedBoostHint # t1 @ t2))"

text \<open>
  A run of capability checks, one after the other, each against the answers the power
  service would give at that moment: the results and traces of the calls, and the state
  after the last.
\<close>

fun isBoostHintSupported_calls ::
  "power_service list \<Rightarrow> bridge \<Rightarrow> (status_t \<times> event list) list \<times> bridge" where
  "isBoostHintSupported_calls [] s = ([], s)"
| "isBoostHintSupported_calls (pw # pws) s =
     (let (ret, s1, t) = isBoostHintSupported pw s;
          (rs, s2) = isBoostHintSupported_calls pws s1
      in ((ret, t) # rs, s2))"

section \<open>Driver messages and \<^verbatim>\<open>notify\<close>\<close>

text \<open>
  \<^verbatim>\<open>fingerprint_msg_t\<close> is a type tag and a union. \<^verbatim>\<open>notify\<close> reads only the member
  that belongs to the tag, so each member the code reads is a field of its own here. The
  token structure \<^verbatim>\<open>hat\<close> is read as raw bytes through a \<^verbatim>\<open>uint8_t\<close> pointer: the field
  gives the byte at each offset.
\<close>

record fingerprint_msg =
  msg_type :: int32
  data_error :: int32
  data_acquired_acquired_info :: int32
  data_enroll_finger_fid :: uint32
  data_enroll_finger_gid :: uint32
  data_enroll_samples_remaining :: uint32
  data_removed_finger_fid :: uint32
  data_removed_finger_gid :: uint32
  data_removed_remaining_templates :: uint32
  data_authenticated_finger_fid :: uint32
  data_authenticated_finger_gid :: uint32
  data_authenticated_hat :: "nat \<Rightarrow> uint8"
  data_enumerated_finger_fid :: uint32
  data_enumerated_finger_gid :: uint32
  data_enumerated_remaining_templates :: uint32

text \<open>\<^verbatim>\<open>reinterpret_cast<uint64_t>(thisPtr->mDevice)\<close>; a null pointer casts to 0.\<close>

definition devId_of :: "bridge \<Rightarrow> uint64" where
  "devId_of s = (case mDevice s of None \<Rightarrow> 0 | Some d \<Rightarrow> dev_address d)"

text \<open>
  \<^verbatim>\<open>std::vector<uint8_t>(hat, hat + sizeof(msg->data.authenticated.hat))\<close>: the bytes at
  the offsets below the size of the structure.
\<close>

definition hat_token :: "hal_consts \<Rightarrow> fingerprint_msg \<Rightarrow> uint8 list" where
  "hat_token c msg = map (data_authenticated_hat msg) [0 ..< SIZEOF_hw_auth_token_t c]"

text \<open>
  \<^verbatim>\<open>notify\<close>: the result is the bridge state after the call and the trace of the call.
  The \<^verbatim>\<open>switch\<close> has no default label. Only the authenticated case looks at \<^verbatim>\<open>isOk()\<close>
  for more than a log line.
\<close>

definition notify ::
  "hal_consts \<Rightarrow> power_service \<Rightarrow> bridge \<Rightarrow> fingerprint_msg \<Rightarrow> bridge \<times> event list" where
  "notify c pw s msg =
     (case mClientCallback s of
        None \<Rightarrow> (s, [])
      | Some cb \<Rightarrow>
          let devId = devId_of s; t = msg_type msg in
          if t = FINGERPRINT_ERROR c then
            (let (result, vendorCode) = VendorErrorFilter c (data_error msg)
             in (s, [Callback (onError devId result vendorCode)]))
          else if t = FINGERPRINT_ACQUIRED c then
            (let (result, vendorCode) = VendorAcquiredFilter c (data_acquired_acquired_info msg)
             in (s, [Callback (onAcquired devId result vendorCode)]))
          else if t = FINGERPRINT_TEMPLATE_ENROLLING c then
            (s, [Callback (onEnrollResult devId (data_enroll_finger_fid msg)
                   (data_enroll_finger_gid msg) (data_enroll_samples_remaining msg))])
          else if t = FINGERPRINT_TEMPLATE_REMOVED c then
            (s, [Callback (onRemoved devId (data_removed_finger_fid msg)
                   (data_removed_finger_gid msg) (data_removed_remaining_templates msg))])
          else if t = FINGERPRINT_AUTHENTICATED c then
            (if data_authenticated_finger_fid msg \<noteq> 0 then
               (let call = onAuthenticated devId (data_authenticated_finger_fid msg)
                             (data_authenticated_finger_gid msg) (hat_token c msg)
                in if \<not> cb call then (s, [Callback call])
                   else
                     let (ret, s', tr) = sendAuthenticatedBoostHint pw s
                     in (s', Callback call # tr))
             else
               (s, [Callback (onAuthenticated devId (data_authenticated_finger_fid msg)
                      (data_authenticated_finger_gid msg) [])]))
          else if t = FINGERPRINT_TEMPLATE_ENUMERATING c then
            (s, [Callback (onEnumerate devId (data_enumerated_finger_fid msg)
                   (data_enumerated_finger_gid msg) (data_enumerated_remaining_templates msg))])
          else (s, []))"

text \<open>The six case labels of the \<^verbatim>\<open>switch\<close> in \<^verbatim>\<open>notify\<close>, in source order.\<close>

definition msg_tags :: "hal_consts \<Rightarrow> int32 list" where
  "msg_tags c =
     [FINGERPRINT_ERROR c, FINGERPRINT_ACQUIRED c, FINGERPRINT_TEMPLATE_ENROLLING c,
      FINGERPRINT_TEMPLATE_REMOVED c, FINGERPRINT_AUTHENTICATED c,
      FINGERPRINT_TEMPLATE_ENUMERATING c]"

text \<open>Projections of a trace: the client callbacks in it, and the boost-hint attempts.\<close>

fun callbacks_of :: "event list \<Rightarrow> cb_call list" where
  "callbacks_of [] = []"
| "callbacks_of (Callback call # es) = call # callbacks_of es"
| "callbacks_of (e # es) = callbacks_of es"

definition boost_attempts :: "event list \<Rightarrow> nat" where
  "boost_attempts es = length (filter (\<lambda>e. e = SendAuthenticatedBoostHint) es)"

section \<open>Requests that reach the driver\<close>

text \<open>
  Dereferencing a null \<^verbatim>\<open>mDevice\<close> ends the process; it is the one failure the model
  gives these methods.
\<close>

datatype crash = NullDereference

text \<open>\<^verbatim>\<open>c_str()\<close> as a C function reads it: the characters before the first NUL.\<close>

definition c_str :: "string \<Rightarrow> string" where
  "c_str p = takeWhile (\<lambda>ch. ch \<noteq> CHR 0x00) p"

text \<open>
  \<^verbatim>\<open>setActiveGroup\<close>; \<open>access_W_OK\<close> is the return value of \<^verbatim>\<open>access(path, W_OK)\<close> in
  the file system of the moment.
\<close>

definition setActiveGroup ::
  "hal_consts \<Rightarrow> (string \<Rightarrow> int32) \<Rightarrow> bridge \<Rightarrow> uint32 \<Rightarrow> string
     \<Rightarrow> crash + (RequestStatus \<times> event list)" where
  "setActiveGroup c access_W_OK s gid storePath =
     (if PATH_MAX c \<le> length storePath \<or> length storePath \<le> 0 then Inr (SYS_EINVAL, [])
      else if access_W_OK (c_str storePath) \<noteq> 0 then Inr (SYS_EINVAL, [])
      else
        case mDevice s of
          None \<Rightarrow> Inl NullDereference
        | Some d \<Rightarrow>
            Inr (ErrorFilter (dev_set_active_group d gid (c_str storePath)),
                 [DriverSetActiveGroup gid (c_str storePath)]))"

definition extCmd :: "bridge \<Rightarrow> int32 \<Rightarrow> int32 \<Rightarrow> crash + (int32 \<times> event list)" where
  "extCmd s cmd param =
     (case mDevice s of
        None \<Rightarrow> Inl NullDereference
      | Some d \<Rightarrow> Inr (dev_extCmd d cmd param, [DriverExtCmd cmd param]))"

section \<open>The FOD watcher\<close>

definition COMMAND_NIT :: int32 where
  "COMMAND_NIT = 10"

definition PARAM_NIT_FOD :: int32 where
  "PARAM_NIT_FOD = 1"

definition PARAM_NIT_NONE :: int32 where
  "PARAM_NIT_NONE = 0"

text \<open>
  What the kernel gives the watcher in one turn of its loop: the return value of \<^verbatim>\<open>poll\<close>,
  and, for the \<^verbatim>\<open>readBool\<close> that follows, the return values of \<^verbatim>\<open>lseek\<close> and \<^verbatim>\<open>read\<close>
  and the character read.
\<close>

record fod_wake =
  poll_rc :: int32
  lseek_rc :: int32
  read_rc :: int32
  read_c :: char

definition readBool :: "fod_wake \<Rightarrow> bool" where
  "readBool w =
     (if lseek_rc w \<noteq> 0 then False
      else if read_rc w \<noteq> 1 then False
      else read_c w \<noteq> CHR ''0'')"

text \<open>
  The thread of the watcher. \<^verbatim>\<open>while (true)\<close> never ends by itself: the loop runs one turn
  for each wake the kernel delivers, and once all wakes given are used it is back in
  \<^verbatim>\<open>poll\<close>, waiting. The result is where the thread stands and the trace so far.
\<close>

datatype thread_status = Waiting_in_poll | Returned | Crashed

fun watcher_loop :: "bridge \<Rightarrow> fod_wake list \<Rightarrow> thread_status \<times> event list" where
  "watcher_loop s [] = (Waiting_in_poll, [])"
| "watcher_loop s (w # ws) =
     (if poll_rc w <s 0 then watcher_loop s ws
      else
        case extCmd s COMMAND_NIT (if readBool w then PARAM_NIT_FOD else PARAM_NIT_NONE) of
          Inl _ \<Rightarrow> (Crashed, [])
        | Inr (_, t) \<Rightarrow> (let (st, t') = watcher_loop s ws in (st, t @ t')))"

definition fod_watcher :: "bridge \<Rightarrow> int32 \<Rightarrow> fod_wake list \<Rightarrow> thread_status \<times> event list" where
  "fod_watcher s fd wakes = (if fd <s 0 then (Returned, []) else watcher_loop s wakes)"

section \<open>Opening the driver\<close>

text \<open>
  A hardware module as \<^verbatim>\<open>openHal\<close> sees it: its \<^verbatim>\<open>open\<close> method is a null pointer
  (\<open>None\<close>), or a function whose call yields an error code and the device it stored.
\<close>

record hw_module =
  methods_open :: "(int32 \<times> xiaomi_fingerprint_device) option"

text \<open>
  \<^verbatim>\<open>openHal(class_name)\<close>; \<open>hw_get_module_by_class\<close> is the module registry: for a class
  name, the error code of the lookup and the module pointer it stored (\<open>None\<close> for null).
  Each check that fails returns \<^verbatim>\<open>nullptr\<close>.
\<close>

definition openHal ::
  "hal_consts \<Rightarrow> (string \<Rightarrow> int32 \<times> hw_module option) \<Rightarrow> string
     \<Rightarrow> xiaomi_fingerprint_device option" where
  "openHal c hw_get_module_by_class class_name =
     (let (err, hw_mdl) = hw_get_module_by_class class_name in
      if 0 \<noteq> err then None
      else
        case hw_mdl of
          None \<Rightarrow> None
        | Some module \<Rightarrow>
            (case methods_open module of
               None \<Rightarrow> None
             | Some (err2, device) \<Rightarrow>
                 if 0 \<noteq> err2 then None
                 else if kVersion c \<noteq> dev_version device then None
                 else if 0 \<noteq> dev_set_notify device then None
                 else Some device))"

definition kModules :: "(string \<times> bool) list" where
  "kModules =
     [(''fpc'', False), (''fpc_fod'', True), (''goodix'', False), (''goodix_fod'', True),
      (''goodix_fod6'', True), (''silead'', False), (''syna'', True)]"

text \<open>
  The \<^verbatim>\<open>for\<close> loop of the constructor over a module table: every turn stores the result
  of \<^verbatim>\<open>openHal\<close> in \<^verbatim>\<open>mDevice\<close>; a null result goes on to the next entry, any other
  records the flag, sets the property and leaves the loop.
\<close>

fun open_modules ::
  "hal_consts \<Rightarrow> (string \<Rightarrow> int32 \<times> hw_module option) \<Rightarrow> (string \<times> bool) list \<Rightarrow> bridge
     \<Rightarrow> bridge \<times> event list" where
  "open_modules c reg [] s = (s, [])"
| "open_modules c reg ((class_name, fod) # rest) s =
     (let s1 = s\<lparr>mDevice := openHal c reg class_name\<rparr> in
      if mDevice s1 = None then
        (let (s2, t) = open_modules c reg rest s1 in (s2, OpenHal class_name # t))
      else
        (s1\<lparr>mFod := fod\<rparr>,
         [OpenHal class_name, SetProperty ''persist.vendor.sys.fp.vendor'' class_name]))"

text \<open>
  The constructor. Its initialiser list sets every member but \<^verbatim>\<open>mFod\<close>, whose declaration
  is in a header outside the repository: the value \<^verbatim>\<open>mFod\<close> has before the loop is the
  parameter \<open>mFod0\<close>. The watcher thread is started, not run, here.
\<close>

definition initial_bridge :: "bool \<Rightarrow> bridge" where
  "initial_bridge mFod0 =
     \<lparr>mClientCallback = None, mDevice = None, mFod = mFod0,
      mBoostHintIsSupported = False, mBoostHintSupportIsChecked = False,
      mPowerHalExtAidl = None\<rparr>"

definition BiometricsFingerprint_new ::
  "hal_consts \<Rightarrow> (string \<Rightarrow> int32 \<times> hw_module option) \<Rightarrow> bool \<Rightarrow> bridge \<times> event list" where
  "BiometricsFingerprint_new c reg mFod0 =
     (let (s1, t) = open_modules c reg kModules (initial_bridge mFod0)
      in if mFod s1
           then (s1, t @ [StartFodWatcher, SetProperty ''ro.hardware.fp.fod'' ''true''])
         else (s1, t))"

section \<open>The variant selector\<close>

record variant_info =
  hwc_value :: string
  sku_value :: string
  brand :: string
  device :: string
  marketname :: string
  model :: string
  build_fingerprint :: string
  nfc :: bool

definition raphaelin_info :: variant_info where
  "raphaelin_info = \<lparr>
     hwc_value = ''INDIA'',
     sku_value = [],
     brand = ''Xiaomi'',
     device = ''raphaelin'',
     marketname = ''Redmi K20 Pro'',
     model = ''MZB7751IN'',
     build_fingerprint =
       ''Xiaomi/raphaelin/raphaelin:11/RKQ1.200826.002/V12.5.1.0.RFKINXM:user/release-keys'',
     nfc = False \<rparr>"

definition raphael_global_info :: variant_info where
  "raphael_global_info = \<lparr>
     hwc_value = ''GLOBAL'',
     sku_value = [],
     brand = ''Xiaomi'',
     device = ''raphael'',
     marketname = ''Mi 9T Pro'',
     model = ''M1903F11G'',
     build_fingerprint =
       ''Xiaomi/raphael/raphael:11/RKQ1.200826.002/V12.5.2.0.RFKMIXM:user/release-keys'',
     nfc = True \<rparr>"

definition raphael_info :: variant_info where
  "raphael_info = \<lparr>
     hwc_value = [],
     sku_value = [],
     brand = ''Xiaomi'',
     device = ''raphael'',
     marketname = ''Redmi K20 Pro'',
     model = ''M1903F11A'',
     build_fingerprint =
       ''Xiaomi/raphael/raphael:11/RKQ1.200826.002/V12.5.6.0.RFKCNXM:user/release-keys'',
     nfc = True \<rparr>"

definition variants :: "variant_info list" where
  "variants = [raphaelin_info, raphael_global_info, raphael_info]"

text \<open>
  Modelled from the spec: \<^verbatim>\<open>search_variant\<close> of \<^verbatim>\<open>libinit_variant\<close>, which
  \<^verbatim>\<open>vendor_load_properties\<close> calls and whose code is not in the repository. The spec: the
  table is scanned in declaration order; the first record whose non-empty match fields all
  match the identifiers read at run time is applied; a record with both match fields empty
  matches anything. The spec says a field is matched "by equality/prefix", so the rule of
  comparison is a parameter; under \<open>By_prefix\<close> the field of the record is a prefix of the
  identifier.
\<close>

datatype match_rule = By_equality | By_prefix

definition field_matches :: "match_rule \<Rightarrow> string \<Rightarrow> string \<Rightarrow> bool" where
  "field_matches r field ident =
     (if field = [] then True
      else case r of By_equality \<Rightarrow> field = ident | By_prefix \<Rightarrow> prefix field ident)"

fun search_variant ::
  "match_rule \<Rightarrow> variant_info list \<Rightarrow> string \<Rightarrow> string \<Rightarrow> variant_info option" where
  "search_variant r [] hwc sku = None"
| "search_variant r (v # vs) hwc sku =
     (if field_matches r (hwc_value v) hwc \<and> field_matches r (sku_value v) sku then Some v
      else search_variant r vs hwc sku)"

text \<open>
  \<^verbatim>\<open>vendor_load_properties\<close>, as far as the variant goes: the record whose properties are
  set, for the hardware id and the SKU read at boot.
\<close>

definition vendor_load_properties :: "match_rule \<Rightarrow> string \<Rightarrow> string \<Rightarrow> variant_info option" where
  "vendor_load_properties r hwc sku = search_variant r variants hwc sku"

section \<open>Auxiliary notions and sample data\<close>

text \<open>The entries of a trace that are calls to the power service.\<close>

definition is_power_event :: "event \<Rightarrow> bool" where
  "is_power_event e =
     (case e of GetPowerService \<Rightarrow> True | IsBoostSupported _ \<Rightarrow> True | SetBoost _ _ \<Rightarrow> True
      | _ \<Rightarrow> False)"

text \<open>
  Concrete data for applying the theorems: a driver that accepts every request, a registry
  that knows this driver under the class \<^verbatim>\<open>goodix_fod\<close> only, a registry that knows no
  module, a client whose calls all arrive, a power service that supports the boost, and one
  whose capability query fails in transport.
\<close>

definition sample_device :: xiaomi_fingerprint_device where
  "sample_device =
     \<lparr>dev_address = 28672, dev_version = 513, dev_set_notify = 0,
      dev_set_active_group = (\<lambda>gid path. 0), dev_extCmd = (\<lambda>cmd param. 0)\<rparr>"

definition goodix_fod_registry :: "string \<Rightarrow> int32 \<times> hw_module option" where
  "goodix_fod_registry class_name =
     (if class_name = ''goodix_fod'' then (0, Some \<lparr>methods_open = Some (0, sample_device)\<rparr>)
      else (- 2, None))"

definition empty_registry :: "string \<Rightarrow> int32 \<times> hw_module option" where
  "empty_registry class_name = (- 2, None)"

definition reliable_client :: "cb_call \<Rightarrow> bool" where
  "reliable_client call = True"

definition unreachable_client :: "cb_call \<Rightarrow> bool" where
  "unreachable_client call = False"

definition sample_bridge :: bridge where
  "sample_bridge =
     \<lparr>mClientCallback = Some reliable_client, mDevice = Some sample_device, mFod = True,
      mBoostHintIsSupported = False, mBoostHintSupportIsChecked = False,
      mPowerHalExtAidl = None\<rparr>"

definition inert_bridge :: bridge where
  "inert_bridge = fst (BiometricsFingerprint_new android_consts empty_registry False)"

definition boosting_power :: power_service where
  "boosting_power =
     \<lparr>fromBinder = Some 1, isBoostSupported = (\<lambda>boost. (STATUS_OK, True)),
      setBoost = (\<lambda>boost durationMs. STATUS_OK)\<rparr>"

definition unsupporting_power :: power_service where
  "unsupporting_power =
     \<lparr>fromBinder = Some 1, isBoostSupported = (\<lambda>boost. (STATUS_OK, False)),
      setBoost = (\<lambda>boost durationMs. STATUS_OK)\<rparr>"

definition crashing_power :: power_service where
  "crashing_power =
     \<lparr>fromBinder = Some 1, isBoostSupported = (\<lambda>boost. (EX_TRANSACTION_FAILED, False)),
      setBoost = (\<lambda>boost durationMs. EX_TRANSACTION_FAILED)\<rparr>"

definition sample_msg :: "int32 \<Rightarrow> uint32 \<Rightarrow> fingerprint_msg" where
  "sample_msg tag fid =
     \<lparr>msg_type = tag, data_error = 0, data_acquired_acquired_info = 0,
      data_enroll_finger_fid = fid, data_enroll_finger_gid = 0,
      data_enroll_samples_remaining = 0,
      data_removed_finger_fid = fid, data_removed_finger_gid = 0,
      data_removed_remaining_templates = 0,
      data_authenticated_finger_fid = fid, data_authenticated_finger_gid = 0,
      data_authenticated_hat = (\<lambda>offset. 0),
      data_enumerated_finger_fid = fid, data_enumerated_finger_gid = 0,
      data_enumerated_remaining_templates = 0\<rparr>"

definition every_path_writable :: "string \<Rightarrow> int32" where
  "every_path_writable path = 0"

definition no_path_writable :: "string \<Rightarrow> int32" where
  "no_path_writable path = - 1"

definition sample_wake :: "int32 \<Rightarrow> int32 \<Rightarrow> char \<Rightarrow> fod_wake" where
  "sample_wake prc rrc ch = \<lparr>poll_rc = prc, lseek_rc = 0, read_rc = rrc, read_c = ch\<rparr>"

section \<open>The status code mapping\<close>

text \<open>
  Claim C2. \<^verbatim>\<open>ErrorFilter\<close> is a total function of its 32-bit argument: 0 gives
  \<open>SYS_OK\<close>, -2 \<open>SYS_ENOENT\<close>, -4 \<open>SYS_EINTR\<close>, -5 \<open>SYS_EIO\<close>, -11 \<open>SYS_EAGAIN\<close>, -12
  \<open>SYS_ENOMEM\<close>, -13 \<open>SYS_EACCES\<close>, -14 \<open>SYS_EFAULT\<close>, -16 \<open>SYS_EBUSY\<close>, -22 \<open>SYS_EINVAL\<close>,
  -28 \<open>SYS_ENOSPC\<close>, -110 \<open>SYS_ETIMEDOUT\<close>, and every other argument gives \<open>SYS_UNKNOWN\<close>.
  It has no failing branch: the default case only logs.
\<close>

theorem ErrorFilter_table:
  "ErrorFilter 0 = SYS_OK \<and> ErrorFilter (- 2) = SYS_ENOENT \<and> ErrorFilter (- 4) = SYS_EINTR \<and>
   ErrorFilter (- 5) = SYS_EIO \<and> ErrorFilter (- 11) = SYS_EAGAIN \<and>
   ErrorFilter (- 12) = SYS_ENOMEM \<and> ErrorFilter (- 13) = SYS_EACCES \<and>
   ErrorFilter (- 14) = SYS_EFAULT \<and> ErrorFilter (- 16) = SYS_EBUSY \<and>
   ErrorFilter (- 22) = SYS_EINVAL \<and> ErrorFilter (- 28) = SYS_ENOSPC \<and>
   ErrorFilter (- 110) = SYS_ETIMEDOUT \<and>
   (error \<notin> {0, - 2, - 4, - 5, - 11, - 12, - 13, - 14, - 16, - 22, - 28, - 110}
      \<longrightarrow> ErrorFilter error = SYS_UNKNOWN)"
  by (simp add: ErrorFilter_def)

theorem ErrorFilter_table_witness:
  "(7 :: int32) \<notin> {0, - 2, - 4, - 5, - 11, - 12, - 13, - 14, - 16, - 22, - 28, - 110} \<and>
   ErrorFilter 7 = SYS_UNKNOWN \<and> ErrorFilter (- 22) = SYS_EINVAL"
  using ErrorFilter_table [of 7] by simp

section \<open>The vendor tables\<close>

text \<open>
  A signed subtraction does not wrap when the subtrahend is non-negative and not above the
  minuend.
\<close>

lemma sint_sub_no_overflow:
  fixes a b :: int32
  assumes "0 \<le>s b" and "b \<le>s a"
  shows "sint (a - b) = sint a - sint b"
proof -
  have b0: "0 \<le> sint b" using assms(1) by (simp add: word_sle_eq)
  have ba: "sint b \<le> sint a" using assms(2) by (simp add: word_sle_eq)
  have hi: "sint a < 2 ^ 31" using sint_lt [of a] by simp
  have "sint (a - b) = signed_take_bit 31 (sint a - sint b)"
    by (simp add: sint_word_ariths)
  also have "\<dots> = sint a - sint b"
    using b0 ba hi by (intro signed_take_bit_int_eq_self) auto
  finally show ?thesis .
qed

text \<open>
  Claim C3. For an error code that is none of the seven case labels of
  \<^verbatim>\<open>VendorErrorFilter\<close>: a code at or above \<^verbatim>\<open>FINGERPRINT_ERROR_VENDOR_BASE\<close> gives
  \<open>ERROR_VENDOR\<close> with \<^verbatim>\<open>vendorCode\<close> the code minus the base; a code below the base gives
  \<open>ERROR_UNABLE_TO_PROCESS\<close>. With a non-negative base the 32-bit difference is the
  difference of the integers.
\<close>

theorem VendorErrorFilter_unlisted:
  assumes "error \<notin> set (error_labels c)"
  shows "(FINGERPRINT_ERROR_VENDOR_BASE c \<le>s error \<longrightarrow>
            VendorErrorFilter c error =
              (ERROR_VENDOR, error - FINGERPRINT_ERROR_VENDOR_BASE c)) \<and>
         (error <s FINGERPRINT_ERROR_VENDOR_BASE c \<longrightarrow>
            VendorErrorFilter c error = (ERROR_UNABLE_TO_PROCESS, 0)) \<and>
         (0 \<le>s FINGERPRINT_ERROR_VENDOR_BASE c \<longrightarrow>
          FINGERPRINT_ERROR_VENDOR_BASE c \<le>s error \<longrightarrow>
            sint (snd (VendorErrorFilter c error)) =
              sint error - sint (FINGERPRINT_ERROR_VENDOR_BASE c))"
proof -
  have unlisted: "VendorErrorFilter c error =
      (if FINGERPRINT_ERROR_VENDOR_BASE c \<le>s error
         then (ERROR_VENDOR, error - FINGERPRINT_ERROR_VENDOR_BASE c)
       else (ERROR_UNABLE_TO_PROCESS, 0))"
    using assms by (simp add: VendorErrorFilter_def error_labels_def)
  show ?thesis
    by (simp add: unlisted sint_sub_no_overflow word_sless_alt word_sle_eq)
qed

theorem VendorErrorFilter_unlisted_witness:
  "(1003 :: int32) \<notin> set (error_labels android_consts) \<and>
   FINGERPRINT_ERROR_VENDOR_BASE android_consts \<le>s 1003 \<and>
   VendorErrorFilter android_consts 1003 = (ERROR_VENDOR, 3) \<and>
   (0 :: int32) \<le>s FINGERPRINT_ERROR_VENDOR_BASE android_consts \<and>
   sint (snd (VendorErrorFilter android_consts 1003)) = 3 \<and>
   (8 :: int32) \<notin> set (error_labels android_consts) \<and>
   8 <s FINGERPRINT_ERROR_VENDOR_BASE android_consts \<and>
   VendorErrorFilter android_consts 8 = (ERROR_UNABLE_TO_PROCESS, 0)"
  using VendorErrorFilter_unlisted [of 1003 android_consts]
    VendorErrorFilter_unlisted [of 8 android_consts]
  by (simp add: error_labels_def android_consts_def word_sless_alt word_sle_eq)

text \<open>
  Claim C9. \<^verbatim>\<open>VendorErrorFilter\<close> and \<^verbatim>\<open>VendorAcquiredFilter\<close> give \<^verbatim>\<open>vendorCode\<close> a
  value on every call. It is 0 whenever the value returned is not the vendor variant (the
  listed codes and the fallback below the base). When the vendor variant is returned, it is
  the input minus the vendor base of that table, the input is at or above the base and is
  no case label. Where the base is itself no case label, \<^verbatim>\<open>vendorCode\<close> equals the input
  minus the base exactly when the vendor variant is returned.
\<close>

theorem vendor_filters_vendorCode:
  "(fst (VendorErrorFilter c error) \<noteq> ERROR_VENDOR \<longrightarrow> snd (VendorErrorFilter c error) = 0) \<and>
   (fst (VendorErrorFilter c error) = ERROR_VENDOR \<longrightarrow>
      snd (VendorErrorFilter c error) = error - FINGERPRINT_ERROR_VENDOR_BASE c \<and>
      FINGERPRINT_ERROR_VENDOR_BASE c \<le>s error \<and> error \<notin> set (error_labels c)) \<and>
   (FINGERPRINT_ERROR_VENDOR_BASE c \<notin> set (error_labels c) \<longrightarrow>
      (snd (VendorErrorFilter c error) = error - FINGERPRINT_ERROR_VENDOR_BASE c) =
      (fst (VendorErrorFilter c error) = ERROR_VENDOR)) \<and>
   (fst (VendorAcquiredFilter c info) \<noteq> ACQUIRED_VENDOR \<longrightarrow>
      snd (VendorAcquiredFilter c info) = 0) \<and>
   (fst (VendorAcquiredFilter c info) = ACQUIRED_VENDOR \<longrightarrow>
      snd (VendorAcquiredFilter c info) = info - FINGERPRINT_ACQUIRED_VENDOR_BASE c \<and>
      FINGERPRINT_ACQUIRED_VENDOR_BASE c \<le>s info \<and> info \<notin> set (acquired_labels c)) \<and>
   (FINGERPRINT_ACQUIRED_VENDOR_BASE c \<notin> set (acquired_labels c) \<longrightarrow>
      (snd (VendorAcquiredFilter c info) = info - FINGERPRINT_ACQUIRED_VENDOR_BASE c) =
      (fst (VendorAcquiredFilter c info) = ACQUIRED_VENDOR))"
proof -
  have e: "(fst (VendorErrorFilter c error) \<noteq> ERROR_VENDOR \<longrightarrow>
              snd (VendorErrorFilter c error) = 0) \<and>
     (fst (VendorErrorFilter c error) = ERROR_VENDOR \<longrightarrow>
        snd (VendorErrorFilter c error) = error - FINGERPRINT_ERROR_VENDOR_BASE c \<and>
        FINGERPRINT_ERROR_VENDOR_BASE c \<le>s error \<and> error \<notin> set (error_labels c))"
    by (simp add: VendorErrorFilter_def error_labels_def)
  have e_iff: "(snd (VendorErrorFilter c error) = error - FINGERPRINT_ERROR_VENDOR_BASE c) =
      (fst (VendorErrorFilter c error) = ERROR_VENDOR)"
    if "FINGERPRINT_ERROR_VENDOR_BASE c \<notin> set (error_labels c)"
    using that by (auto simp: VendorErrorFilter_def error_labels_def)
  have a: "(fst (VendorAcquiredFilter c info) \<noteq> ACQUIRED_VENDOR \<longrightarrow>
              snd (VendorAcquiredFilter c info) = 0) \<and>
     (fst (VendorAcquiredFilter c info) = ACQUIRED_VENDOR \<longrightarrow>
        snd (VendorAcquiredFilter c info) = info - FINGERPRINT_ACQUIRED_VENDOR_BASE c \<and>
        FINGERPRINT_ACQUIRED_VENDOR_BASE c \<le>s info \<and> info \<notin> set (acquired_labels c))"
    by (simp add: VendorAcquiredFilter_def acquired_labels_def)
  have a_iff: "(snd (VendorAcquiredFilter c info) = info - FINGERPRINT_ACQUIRED_VENDOR_BASE c) =
      (fst (VendorAcquiredFilter c info) = ACQUIRED_VENDOR)"
    if "FINGERPRINT_ACQUIRED_VENDOR_BASE c \<notin> set (acquired_labels c)"
    using that by (auto simp: VendorAcquiredFilter_def acquired_labels_def)
  show ?thesis using e e_iff a a_iff by blast
qed

theorem vendor_filters_vendorCode_witness:
  "fst (VendorErrorFilter android_consts 3) \<noteq> ERROR_VENDOR \<and>
   snd (VendorErrorFilter android_consts 3) = 0 \<and>
   fst (VendorErrorFilter android_consts 1005) = ERROR_VENDOR \<and>
   snd (VendorErrorFilter android_consts 1005) = 5 \<and>
   FINGERPRINT_ERROR_VENDOR_BASE android_consts \<notin> set (error_labels android_consts) \<and>
   fst (VendorAcquiredFilter android_consts 6) \<noteq> ACQUIRED_VENDOR \<and>
   snd (VendorAcquiredFilter android_consts 6) = 0 \<and>
   fst (VendorAcquiredFilter android_consts 1002) = ACQUIRED_VENDOR \<and>
   snd (VendorAcquiredFilter android_consts 1002) = 2 \<and>
   FINGERPRINT_ACQUIRED_VENDOR_BASE android_consts \<notin> set (acquired_labels android_consts)"
  using vendor_filters_vendorCode [of android_consts 3 6]
    vendor_filters_vendorCode [of android_consts 1005 1002]
  by (simp add: VendorErrorFilter_def VendorAcquiredFilter_def android_consts_def
      error_labels_def acquired_labels_def)

section \<open>Traces of the boost notifier\<close>

lemma power_events_silent:
  "list_all is_power_event t \<Longrightarrow> callbacks_of t = [] \<and> boost_attempts t = 0"
proof (induction t)
  case Nil
  show ?case by (simp add: boost_attempts_def)
next
  case (Cons e es)
  then show ?case
    by (cases e) (simp_all add: boost_attempts_def is_power_event_def)
qed

lemma connect_power_events:
  "connectPowerHalExt pw s = (rc, s', t) \<Longrightarrow> list_all is_power_event t"
  by (auto simp: connectPowerHalExt_def Let_def is_power_event_def split: if_splits)

lemma check_power_events:
  assumes "checkPowerHalExtBoostSupport pw boost s = (rc, s', t)"
  shows "list_all is_power_event t"
proof (cases "boost = []")
  case True
  with assms show ?thesis by (simp add: checkPowerHalExtBoostSupport_def)
next
  case False
  obtain rc1 s1 t1 where c: "connectPowerHalExt pw s = (rc1, s1, t1)"
    by (cases "connectPowerHalExt pw s") auto
  have t1: "list_all is_power_event t1" using c by (rule connect_power_events)
  obtain st sup where q: "isBoostSupported pw boost = (st, sup)"
    by (cases "isBoostSupported pw boost") auto
  from assms False c q have "t = t1 \<or> t = t1 @ [IsBoostSupported boost]"
    by (auto simp: checkPowerHalExtBoostSupport_def Let_def split: if_splits)
  with t1 show ?thesis by (auto simp: is_power_event_def)
qed

lemma send_power_events:
  assumes "sendPowerHalExtBoost pw boost d s = (rc, s', t)"
  shows "list_all is_power_event t"
proof (cases "boost = []")
  case True
  with assms show ?thesis by (simp add: sendPowerHalExtBoost_def)
next
  case False
  obtain rc1 s1 t1 where c: "connectPowerHalExt pw s = (rc1, s1, t1)"
    by (cases "connectPowerHalExt pw s") auto
  have t1: "list_all is_power_event t1" using c by (rule connect_power_events)
  from assms False c have "t = t1 \<or> t = t1 @ [SetBoost boost d]"
    by (auto simp: sendPowerHalExtBoost_def Let_def split: if_splits)
  with t1 show ?thesis by (auto simp: is_power_event_def)
qed

lemma supported_power_events:
  assumes "isBoostHintSupported pw s = (rc, s', t)"
  shows "list_all is_power_event t"
proof (cases "mBoostHintSupportIsChecked s")
  case True
  with assms show ?thesis by (simp add: isBoostHintSupported_def)
next
  case False
  obtain rc1 s1 t1 where c: "checkPowerHalExtBoostSupport pw kBoostHint s = (rc1, s1, t1)"
    by (cases "checkPowerHalExtBoostSupport pw kBoostHint s") auto
  have t1: "list_all is_power_event t1" using c by (rule check_power_events)
  from assms False c have "t = t1"
    by (auto simp: isBoostHintSupported_def Let_def split: if_splits)
  with t1 show ?thesis by simp
qed

text \<open>
  One call of \<^verbatim>\<open>sendAuthenticatedBoostHint\<close> is one attempt, whatever the power service
  answers, and invokes no client callback.
\<close>

lemma boost_hint_trace:
  assumes "sendAuthenticatedBoostHint pw s = (rc, s', t)"
  shows "callbacks_of t = [] \<and> boost_attempts t = 1"
proof -
  obtain rc1 s1 t1 where a: "isBoostHintSupported pw s = (rc1, s1, t1)"
    by (cases "isBoostHintSupported pw s") auto
  obtain rc2 s2 t2 where
    b: "sendPowerHalExtBoost pw kBoostHint kBoostDurationMs s1 = (rc2, s2, t2)"
    by (cases "sendPowerHalExtBoost pw kBoostHint kBoostDurationMs s1") auto
  have p1: "list_all is_power_event t1" using a by (rule supported_power_events)
  have p2: "list_all is_power_event t2" using b by (rule send_power_events)
  have "t = SendAuthenticatedBoostHint # t1 \<or> t = SendAuthenticatedBoostHint # t1 @ t2"
    using assms a b by (auto simp: sendAuthenticatedBoostHint_def split: if_splits)
  moreover have "list_all is_power_event (t1 @ t2)" using p1 p2 by simp
  ultimately show ?thesis
    using power_events_silent [OF p1] power_events_silent [of "t1 @ t2"]
    by (auto simp: boost_attempts_def)
qed

section \<open>Dispatch in \<^verbatim>\<open>notify\<close>\<close>

lemma length_hat_token: "length (hat_token c msg) = SIZEOF_hw_auth_token_t c"
  by (simp add: hat_token_def)

text \<open>
  With pairwise distinct case labels (which C demands of a \<^verbatim>\<open>switch\<close>), a message whose
  tag is \<^verbatim>\<open>FINGERPRINT_AUTHENTICATED\<close> reaches the authenticated case.
\<close>

lemma notify_authenticated_case:
  assumes cb: "mClientCallback s = Some cb"
      and ty: "msg_type msg = FINGERPRINT_AUTHENTICATED c"
      and di: "distinct (msg_tags c)"
  shows "notify c pw s msg =
     (if data_authenticated_finger_fid msg \<noteq> 0 then
        (let call = onAuthenticated (devId_of s) (data_authenticated_finger_fid msg)
                      (data_authenticated_finger_gid msg) (hat_token c msg)
         in if \<not> cb call then (s, [Callback call])
            else
              let (ret, s', tr) = sendAuthenticatedBoostHint pw s
              in (s', Callback call # tr))
      else
        (s, [Callback (onAuthenticated (devId_of s) (data_authenticated_finger_fid msg)
               (data_authenticated_finger_gid msg) [])]))"
proof -
  have ne: "FINGERPRINT_AUTHENTICATED c \<noteq> FINGERPRINT_ERROR c"
    "FINGERPRINT_AUTHENTICATED c \<noteq> FINGERPRINT_ACQUIRED c"
    "FINGERPRINT_AUTHENTICATED c \<noteq> FINGERPRINT_TEMPLATE_ENROLLING c"
    "FINGERPRINT_AUTHENTICATED c \<noteq> FINGERPRINT_TEMPLATE_REMOVED c"
    using di by (auto simp: msg_tags_def)
  show ?thesis
    by (simp add: notify_def cb ty ne Let_def)
qed

text \<open>
  Claim C1. Let a client callback be registered and let \<^verbatim>\<open>notify\<close> handle a message
  tagged \<^verbatim>\<open>FINGERPRINT_AUTHENTICATED\<close>. With finger id 0 the only client callback is
  \<^verbatim>\<open>onAuthenticated\<close> with an empty token, and no boost hint is attempted. With a non-zero
  finger id the only client callback is \<^verbatim>\<open>onAuthenticated\<close> with a token of
  \<^verbatim>\<open>sizeof(hw_auth_token_t)\<close> bytes, and \<^verbatim>\<open>sendAuthenticatedBoostHint\<close> is entered exactly
  once if that invocation succeeds and not at all if it fails.
\<close>

theorem notify_authenticated:
  assumes cb: "mClientCallback s = Some cb"
      and ty: "msg_type msg = FINGERPRINT_AUTHENTICATED c"
      and di: "distinct (msg_tags c)"
  shows "(data_authenticated_finger_fid msg = 0 \<longrightarrow>
            callbacks_of (snd (notify c pw s msg)) =
              [onAuthenticated (devId_of s) 0 (data_authenticated_finger_gid msg) []] \<and>
            boost_attempts (snd (notify c pw s msg)) = 0) \<and>
         (data_authenticated_finger_fid msg \<noteq> 0 \<longrightarrow>
            callbacks_of (snd (notify c pw s msg)) =
              [onAuthenticated (devId_of s) (data_authenticated_finger_fid msg)
                 (data_authenticated_finger_gid msg) (hat_token c msg)] \<and>
            length (hat_token c msg) = SIZEOF_hw_auth_token_t c \<and>
            boost_attempts (snd (notify c pw s msg)) =
              (if cb (onAuthenticated (devId_of s) (data_authenticated_finger_fid msg)
                        (data_authenticated_finger_gid msg) (hat_token c msg))
               then 1 else 0))"
proof -
  obtain rc s' tr where b: "sendAuthenticatedBoostHint pw s = (rc, s', tr)"
    by (cases "sendAuthenticatedBoostHint pw s") auto
  note tr = boost_hint_trace [OF b]
  show ?thesis
    using tr
    by (simp add: notify_authenticated_case [OF cb ty di] b Let_def boost_attempts_def
        length_hat_token)
qed

theorem notify_authenticated_witness:
  "mClientCallback sample_bridge = Some reliable_client \<and>
   mClientCallback (sample_bridge\<lparr>mClientCallback := Some unreachable_client\<rparr>) =
     Some unreachable_client \<and>
   msg_type (sample_msg 5 7) = FINGERPRINT_AUTHENTICATED android_consts \<and>
   msg_type (sample_msg 5 0) = FINGERPRINT_AUTHENTICATED android_consts \<and>
   distinct (msg_tags android_consts) \<and>
   data_authenticated_finger_fid (sample_msg 5 7) \<noteq> 0 \<and>
   data_authenticated_finger_fid (sample_msg 5 0) = 0 \<and>
   callbacks_of (snd (notify android_consts boosting_power sample_bridge (sample_msg 5 7))) =
     [onAuthenticated 28672 7 0 (replicate 69 0)] \<and>
   boost_attempts (snd (notify android_consts boosting_power sample_bridge (sample_msg 5 7))) = 1 \<and>
   callbacks_of (snd (notify android_consts boosting_power sample_bridge (sample_msg 5 0))) =
     [onAuthenticated 28672 0 0 []] \<and>
   boost_attempts (snd (notify android_consts boosting_power sample_bridge (sample_msg 5 0))) = 0 \<and>
   callbacks_of (snd (notify android_consts boosting_power
       (sample_bridge\<lparr>mClientCallback := Some unreachable_client\<rparr>) (sample_msg 5 7))) =
     [onAuthenticated 28672 7 0 (replicate 69 0)] \<and>
   boost_attempts (snd (notify android_consts boosting_power
       (sample_bridge\<lparr>mClientCallback := Some unreachable_client\<rparr>) (sample_msg 5 7))) = 0"
proof -
  let ?deaf = "sample_bridge\<lparr>mClientCallback := Some unreachable_client\<rparr>"
  have cb: "mClientCallback sample_bridge = Some reliable_client"
    by (simp add: sample_bridge_def)
  have cb': "mClientCallback ?deaf = Some unreachable_client"
    by simp
  have ty: "msg_type (sample_msg 5 fid) = FINGERPRINT_AUTHENTICATED android_consts" for fid
    by (simp add: sample_msg_def android_consts_def)
  have di: "distinct (msg_tags android_consts)"
    by (simp add: msg_tags_def android_consts_def)
  have dev: "devId_of sample_bridge = 28672" "devId_of ?deaf = 28672"
    by (simp_all add: devId_of_def sample_bridge_def sample_device_def)
  have tok: "hat_token android_consts (sample_msg 5 7) = replicate 69 0"
    by (simp add: hat_token_def sample_msg_def android_consts_def map_replicate_const)
  have fields: "data_authenticated_finger_fid (sample_msg 5 fid) = fid"
    "data_authenticated_finger_gid (sample_msg 5 fid) = 0" for fid
    by (simp_all add: sample_msg_def)
  show ?thesis
    using notify_authenticated [OF cb ty di, of 7 boosting_power]
      notify_authenticated [OF cb ty di, of 0 boosting_power]
      notify_authenticated [OF cb' ty di, of 7 boosting_power]
    by (simp add: cb ty di dev tok fields reliable_client_def unreachable_client_def)
qed

text \<open>
  Claim C10. A message whose type tag is none of the six case labels of the \<^verbatim>\<open>switch\<close>
  makes \<^verbatim>\<open>notify\<close> return with the bridge state as it was and an empty trace: no client
  callback, no boost hint. The same holds for any message while no client callback is
  registered.
\<close>

theorem notify_drops_message:
  "(msg_type msg \<notin> set (msg_tags c) \<longrightarrow> notify c pw s msg = (s, [])) \<and>
   (mClientCallback s = None \<longrightarrow> notify c pw s msg = (s, []))"
  by (simp add: notify_def msg_tags_def split: option.split)

theorem notify_drops_message_witness:
  "msg_type (sample_msg 2 7) \<notin> set (msg_tags android_consts) \<and>
   notify android_consts boosting_power sample_bridge (sample_msg 2 7) = (sample_bridge, []) \<and>
   mClientCallback (initial_bridge False) = None \<and>
   notify android_consts boosting_power (initial_bridge False) (sample_msg 5 7) =
     (initial_bridge False, [])"
proof -
  have tag: "msg_type (sample_msg 2 7) \<notin> set (msg_tags android_consts)"
    by (simp add: sample_msg_def msg_tags_def android_consts_def)
  have nocb: "mClientCallback (initial_bridge False) = None"
    by (simp add: initial_bridge_def)
  show ?thesis
    using notify_drops_message [of "sample_msg 2 7" android_consts boosting_power sample_bridge]
      notify_drops_message [of "sample_msg 5 7" android_consts boosting_power
        "initial_bridge False"]
    by (simp add: tag nocb)
qed

section \<open>\<^verbatim>\<open>setActiveGroup\<close>\<close>

lemma inert_bridge_eq: "inert_bridge = initial_bridge False"
  by (simp add: inert_bridge_def BiometricsFingerprint_new_def kModules_def openHal_def
      empty_registry_def initial_bridge_def)

text \<open>
  Claim C4, as the code has it. A store path that is empty, or at least \<^verbatim>\<open>PATH_MAX\<close> long,
  or that \<^verbatim>\<open>access(path, W_OK)\<close> rejects, gives \<open>SYS_EINVAL\<close> and the driver is not called,
  whatever the state of the bridge. For every other store path, on a bridge whose driver was
  opened (\<^verbatim>\<open>mDevice\<close> is not null), \<^verbatim>\<open>set_active_group\<close> is called exactly once and its
  return code goes through \<^verbatim>\<open>ErrorFilter\<close>.
\<close>

theorem setActiveGroup_validates:
  "(storePath = [] \<or> PATH_MAX c \<le> length storePath \<or> access_W_OK (c_str storePath) \<noteq> 0 \<longrightarrow>
      setActiveGroup c access_W_OK s gid storePath = Inr (SYS_EINVAL, [])) \<and>
   (\<not> (storePath = [] \<or> PATH_MAX c \<le> length storePath \<or>
        access_W_OK (c_str storePath) \<noteq> 0) \<longrightarrow>
    mDevice s = Some d \<longrightarrow>
      setActiveGroup c access_W_OK s gid storePath =
        Inr (ErrorFilter (dev_set_active_group d gid (c_str storePath)),
             [DriverSetActiveGroup gid (c_str storePath)]))"
  by (auto simp: setActiveGroup_def)

theorem setActiveGroup_validates_witness:
  "setActiveGroup android_consts every_path_writable sample_bridge 0 [] = Inr (SYS_EINVAL, []) \<and>
   no_path_writable (c_str ''/data/fp'') \<noteq> 0 \<and>
   setActiveGroup android_consts no_path_writable inert_bridge 0 ''/data/fp'' =
     Inr (SYS_EINVAL, []) \<and>
   \<not> (''/data/fp'' = [] \<or> PATH_MAX android_consts \<le> length ''/data/fp'' \<or>
      every_path_writable (c_str ''/data/fp'') \<noteq> 0) \<and>
   mDevice sample_bridge = Some sample_device \<and>
   setActiveGroup android_consts every_path_writable sample_bridge 0 ''/data/fp'' =
     Inr (SYS_OK, [DriverSetActiveGroup 0 ''/data/fp''])"
proof -
  have dev: "mDevice sample_bridge = Some sample_device"
    by (simp add: sample_bridge_def)
  have path: "c_str ''/data/fp'' = ''/data/fp''"
    by (simp add: c_str_def)
  have unwritable: "no_path_writable (c_str ''/data/fp'') \<noteq> 0"
    by (simp add: no_path_writable_def)
  have valid: "\<not> (''/data/fp'' = [] \<or> PATH_MAX android_consts \<le> length ''/data/fp'' \<or>
      every_path_writable (c_str ''/data/fp'') \<noteq> 0)"
    by (simp add: android_consts_def every_path_writable_def)
  have empty: "setActiveGroup android_consts every_path_writable sample_bridge 0 [] =
      Inr (SYS_EINVAL, [])"
    using setActiveGroup_validates
            [of "[]" android_consts every_path_writable sample_bridge 0 sample_device]
    by simp
  have rejected: "setActiveGroup android_consts no_path_writable inert_bridge 0 ''/data/fp'' =
      Inr (SYS_EINVAL, [])"
    using setActiveGroup_validates
            [of "''/data/fp''" android_consts no_path_writable inert_bridge 0 sample_device]
      unwritable
    by blast
  have "setActiveGroup android_consts every_path_writable sample_bridge 0 ''/data/fp'' =
      Inr (ErrorFilter (dev_set_active_group sample_device 0 (c_str ''/data/fp'')),
           [DriverSetActiveGroup 0 (c_str ''/data/fp'')])"
    using setActiveGroup_validates
            [of "''/data/fp''" android_consts every_path_writable sample_bridge 0 sample_device]
      valid dev
    by blast
  then have forwarded:
    "setActiveGroup android_consts every_path_writable sample_bridge 0 ''/data/fp'' =
       Inr (SYS_OK, [DriverSetActiveGroup 0 ''/data/fp''])"
    by (simp add: path sample_device_def ErrorFilter_def)
  show ?thesis
    using empty unwritable rejected valid dev forwarded by blast
qed

text \<open>
  Claim C4 as the spec states it fails on the bridge that the constructor leaves when no
  module opens: the path passes all three checks, and the call dereferences the null
  \<^verbatim>\<open>mDevice\<close> instead of reaching a driver.
\<close>

theorem setActiveGroup_inert_counterexample:
  "mDevice inert_bridge = None \<and>
   ''/data/fp'' \<noteq> [] \<and> \<not> PATH_MAX android_consts \<le> length ''/data/fp'' \<and>
   every_path_writable (c_str ''/data/fp'') = 0 \<and>
   setActiveGroup android_consts every_path_writable inert_bridge 0 ''/data/fp'' =
     Inl NullDereference"
  by (simp add: inert_bridge_eq initial_bridge_def setActiveGroup_def android_consts_def
      every_path_writable_def)

section \<open>The boost capability cache\<close>

lemma cached_unsupported_call:
  assumes "mBoostHintSupportIsChecked s" and "\<not> mBoostHintIsSupported s"
  shows "isBoostHintSupported pw s = (MINUS_EOPNOTSUPP, s, [])"
  using assms by (simp add: isBoostHintSupported_def)

lemma cached_unsupported_calls:
  assumes "mBoostHintSupportIsChecked s" and "\<not> mBoostHintIsSupported s"
  shows "isBoostHintSupported_calls pws s = (replicate (length pws) (MINUS_EOPNOTSUPP, []), s)"
proof (induction pws)
  case Nil
  show ?case by simp
next
  case (Cons pw pws)
  then show ?case by (simp add: cached_unsupported_call [OF assms])
qed

lemma connect_when_reachable:
  assumes "mPowerHalExtAidl s \<noteq> None \<or> fromBinder pw \<noteq> None"
  shows "\<exists>s1 t1. connectPowerHalExt pw s = (NO_ERROR, s1, t1) \<and> mPowerHalExtAidl s1 \<noteq> None \<and>
           mBoostHintSupportIsChecked s1 = mBoostHintSupportIsChecked s \<and>
           mBoostHintIsSupported s1 = mBoostHintIsSupported s"
  using assms by (auto simp: connectPowerHalExt_def Let_def)

lemma check_transport_failure:
  assumes conn: "mPowerHalExtAidl s \<noteq> None \<or> fromBinder pw \<noteq> None"
      and fail: "fst (isBoostSupported pw boost) = EX_TRANSACTION_FAILED"
      and ne: "boost \<noteq> []"
  shows "\<exists>s' t. checkPowerHalExtBoostSupport pw boost s = (MINUS_ENOTCONN, s', t) \<and>
           mPowerHalExtAidl s' = None \<and>
           mBoostHintSupportIsChecked s' = mBoostHintSupportIsChecked s \<and>
           mBoostHintIsSupported s' = mBoostHintIsSupported s"
proof -
  from connect_when_reachable [OF conn] obtain s1 t1 where
    c: "connectPowerHalExt pw s = (NO_ERROR, s1, t1)"
    and k: "mBoostHintSupportIsChecked s1 = mBoostHintSupportIsChecked s"
           "mBoostHintIsSupported s1 = mBoostHintIsSupported s"
    by blast
  obtain sup where q: "isBoostSupported pw boost = (EX_TRANSACTION_FAILED, sup)"
    using fail by (cases "isBoostSupported pw boost") auto
  show ?thesis
    by (simp add: checkPowerHalExtBoostSupport_def ne c q k)
qed

lemma check_unsupported:
  assumes conn: "mPowerHalExtAidl s \<noteq> None \<or> fromBinder pw \<noteq> None"
      and ans: "isBoostSupported pw boost = (STATUS_OK, False)"
      and ne: "boost \<noteq> []"
  shows "\<exists>s' t. checkPowerHalExtBoostSupport pw boost s = (MINUS_EOPNOTSUPP, s', t) \<and>
           mBoostHintIsSupported s' = mBoostHintIsSupported s"
proof -
  from connect_when_reachable [OF conn] obtain s1 t1 where
    c: "connectPowerHalExt pw s = (NO_ERROR, s1, t1)"
    and k: "mBoostHintIsSupported s1 = mBoostHintIsSupported s"
    by blast
  show ?thesis
    by (simp add: checkPowerHalExtBoostSupport_def ne c ans k)
qed

text \<open>
  Claim C5. (1) In a state where the capability is cached as unsupported (checked flag set,
  supported flag clear), \<^verbatim>\<open>isBoostHintSupported\<close> returns \<^verbatim>\<open>-EOPNOTSUPP\<close>, leaves the state
  as it is and makes no call to the power service; so does every call of any later run of
  calls. (2) Such a state is what a first call leaves when the service answers "not
  supported". (3) When the transaction of the capability query fails,
  \<^verbatim>\<open>checkPowerHalExtBoostSupport\<close> returns \<^verbatim>\<open>-ENOTCONN\<close>, a value other than
  \<^verbatim>\<open>-EOPNOTSUPP\<close>, with the cached proxy reset to null, and \<^verbatim>\<open>isBoostHintSupported\<close> passes
  this on with the checked flag still clear and the supported flag untouched.
\<close>

theorem boost_capability_cache:
  "(mBoostHintSupportIsChecked s \<and> \<not> mBoostHintIsSupported s \<longrightarrow>
      isBoostHintSupported pw s = (MINUS_EOPNOTSUPP, s, []) \<and>
      isBoostHintSupported_calls pws s = (replicate (length pws) (MINUS_EOPNOTSUPP, []), s)) \<and>
   (\<not> mBoostHintSupportIsChecked s \<and> \<not> mBoostHintIsSupported s \<and>
    (mPowerHalExtAidl s \<noteq> None \<or> fromBinder pw \<noteq> None) \<and>
    isBoostSupported pw kBoostHint = (STATUS_OK, False) \<longrightarrow>
      fst (isBoostHintSupported pw s) = MINUS_EOPNOTSUPP \<and>
      mBoostHintSupportIsChecked (fst (snd (isBoostHintSupported pw s))) \<and>
      \<not> mBoostHintIsSupported (fst (snd (isBoostHintSupported pw s)))) \<and>
   (\<not> mBoostHintSupportIsChecked s \<and>
    (mPowerHalExtAidl s \<noteq> None \<or> fromBinder pw \<noteq> None) \<and>
    fst (isBoostSupported pw kBoostHint) = EX_TRANSACTION_FAILED \<longrightarrow>
      fst (checkPowerHalExtBoostSupport pw kBoostHint s) = MINUS_ENOTCONN \<and>
      mPowerHalExtAidl (fst (snd (checkPowerHalExtBoostSupport pw kBoostHint s))) = None \<and>
      fst (isBoostHintSupported pw s) = MINUS_ENOTCONN \<and>
      fst (isBoostHintSupported pw s) \<noteq> MINUS_EOPNOTSUPP \<and>
      mPowerHalExtAidl (fst (snd (isBoostHintSupported pw s))) = None \<and>
      \<not> mBoostHintSupportIsChecked (fst (snd (isBoostHintSupported pw s))) \<and>
      mBoostHintIsSupported (fst (snd (isBoostHintSupported pw s))) = mBoostHintIsSupported s)"
proof -
  have hint: "kBoostHint \<noteq> []" by (simp add: kBoostHint_def)
  have cached: "isBoostHintSupported pw s = (MINUS_EOPNOTSUPP, s, []) \<and>
      isBoostHintSupported_calls pws s = (replicate (length pws) (MINUS_EOPNOTSUPP, []), s)"
    if "mBoostHintSupportIsChecked s" "\<not> mBoostHintIsSupported s"
    using cached_unsupported_call [OF that] cached_unsupported_calls [OF that] by simp
  have caching: "fst (isBoostHintSupported pw s) = MINUS_EOPNOTSUPP \<and>
      mBoostHintSupportIsChecked (fst (snd (isBoostHintSupported pw s))) \<and>
      \<not> mBoostHintIsSupported (fst (snd (isBoostHintSupported pw s)))"
    if "\<not> mBoostHintSupportIsChecked s" "\<not> mBoostHintIsSupported s"
       "mPowerHalExtAidl s \<noteq> None \<or> fromBinder pw \<noteq> None"
       "isBoostSupported pw kBoostHint = (STATUS_OK, False)"
  proof -
    from check_unsupported [OF that(3) that(4) hint] obtain s' t where
      "checkPowerHalExtBoostSupport pw kBoostHint s = (MINUS_EOPNOTSUPP, s', t)"
      "mBoostHintIsSupported s' = mBoostHintIsSupported s"
      by blast
    then show ?thesis using that(1,2) by (simp add: isBoostHintSupported_def)
  qed
  have transport: "fst (checkPowerHalExtBoostSupport pw kBoostHint s) = MINUS_ENOTCONN \<and>
      mPowerHalExtAidl (fst (snd (checkPowerHalExtBoostSupport pw kBoostHint s))) = None \<and>
      fst (isBoostHintSupported pw s) = MINUS_ENOTCONN \<and>
      fst (isBoostHintSupported pw s) \<noteq> MINUS_EOPNOTSUPP \<and>
      mPowerHalExtAidl (fst (snd (isBoostHintSupported pw s))) = None \<and>
      \<not> mBoostHintSupportIsChecked (fst (snd (isBoostHintSupported pw s))) \<and>
      mBoostHintIsSupported (fst (snd (isBoostHintSupported pw s))) = mBoostHintIsSupported s"
    if "\<not> mBoostHintSupportIsChecked s"
       "mPowerHalExtAidl s \<noteq> None \<or> fromBinder pw \<noteq> None"
       "fst (isBoostSupported pw kBoostHint) = EX_TRANSACTION_FAILED"
  proof -
    from check_transport_failure [OF that(2) that(3) hint] obtain s' t where
      "checkPowerHalExtBoostSupport pw kBoostHint s = (MINUS_ENOTCONN, s', t)"
      "mPowerHalExtAidl s' = None"
      "mBoostHintSupportIsChecked s' = mBoostHintSupportIsChecked s"
      "mBoostHintIsSupported s' = mBoostHintIsSupported s"
      by blast
    then show ?thesis using that(1) by (simp add: isBoostHintSupported_def)
  qed
  show ?thesis
    using cached caching transport by blast
qed

theorem boost_capability_cache_witness:
  "mBoostHintSupportIsChecked (sample_bridge\<lparr>mBoostHintSupportIsChecked := True\<rparr>) \<and>
   \<not> mBoostHintIsSupported (sample_bridge\<lparr>mBoostHintSupportIsChecked := True\<rparr>) \<and>
   isBoostHintSupported boosting_power (sample_bridge\<lparr>mBoostHintSupportIsChecked := True\<rparr>) =
     (MINUS_EOPNOTSUPP, sample_bridge\<lparr>mBoostHintSupportIsChecked := True\<rparr>, []) \<and>
   isBoostHintSupported_calls [boosting_power, crashing_power, boosting_power]
       (sample_bridge\<lparr>mBoostHintSupportIsChecked := True\<rparr>) =
     ([(MINUS_EOPNOTSUPP, []), (MINUS_EOPNOTSUPP, []), (MINUS_EOPNOTSUPP, [])],
      sample_bridge\<lparr>mBoostHintSupportIsChecked := True\<rparr>) \<and>
   \<not> mBoostHintSupportIsChecked sample_bridge \<and> \<not> mBoostHintIsSupported sample_bridge \<and>
   fromBinder unsupporting_power \<noteq> None \<and>
   isBoostSupported unsupporting_power kBoostHint = (STATUS_OK, False) \<and>
   fst (isBoostHintSupported unsupporting_power sample_bridge) = MINUS_EOPNOTSUPP \<and>
   mBoostHintSupportIsChecked (fst (snd (isBoostHintSupported unsupporting_power sample_bridge))) \<and>
   fromBinder crashing_power \<noteq> None \<and>
   fst (isBoostSupported crashing_power kBoostHint) = EX_TRANSACTION_FAILED \<and>
   fst (isBoostHintSupported crashing_power sample_bridge) = MINUS_ENOTCONN \<and>
   mPowerHalExtAidl (fst (snd (isBoostHintSupported crashing_power sample_bridge))) = None \<and>
   \<not> mBoostHintSupportIsChecked (fst (snd (isBoostHintSupported crashing_power sample_bridge)))"
proof -
  let ?cached = "sample_bridge\<lparr>mBoostHintSupportIsChecked := True\<rparr>"
  let ?pws = "[boosting_power, crashing_power, boosting_power]"
  have flags: "mBoostHintSupportIsChecked ?cached \<and> \<not> mBoostHintIsSupported ?cached"
    by (simp add: sample_bridge_def)
  have fresh: "\<not> mBoostHintSupportIsChecked sample_bridge" "\<not> mBoostHintIsSupported sample_bridge"
    by (simp_all add: sample_bridge_def)
  have uns: "fromBinder unsupporting_power \<noteq> None"
    "isBoostSupported unsupporting_power kBoostHint = (STATUS_OK, False)"
    by (simp_all add: unsupporting_power_def)
  have cra: "fromBinder crashing_power \<noteq> None"
    "fst (isBoostSupported crashing_power kBoostHint) = EX_TRANSACTION_FAILED"
    by (simp_all add: crashing_power_def)
  have rep: "replicate (length ?pws) (MINUS_EOPNOTSUPP, [] :: event list) =
      [(MINUS_EOPNOTSUPP, []), (MINUS_EOPNOTSUPP, []), (MINUS_EOPNOTSUPP, [])]"
    by simp
  have one: "isBoostHintSupported boosting_power ?cached = (MINUS_EOPNOTSUPP, ?cached, [])"
    and "isBoostHintSupported_calls ?pws ?cached =
           (replicate (length ?pws) (MINUS_EOPNOTSUPP, []), ?cached)"
    using boost_capability_cache [of ?cached boosting_power ?pws] flags by blast+
  then have run: "isBoostHintSupported_calls ?pws ?cached =
      ([(MINUS_EOPNOTSUPP, []), (MINUS_EOPNOTSUPP, []), (MINUS_EOPNOTSUPP, [])], ?cached)"
    by (simp only: rep)
  have caching: "fst (isBoostHintSupported unsupporting_power sample_bridge) = MINUS_EOPNOTSUPP"
    "mBoostHintSupportIsChecked (fst (snd (isBoostHintSupported unsupporting_power sample_bridge)))"
    using boost_capability_cache [of sample_bridge unsupporting_power "[]"] fresh uns by blast+
  have failing: "fst (isBoostHintSupported crashing_power sample_bridge) = MINUS_ENOTCONN"
    "mPowerHalExtAidl (fst (snd (isBoostHintSupported crashing_power sample_bridge))) = None"
    "\<not> mBoostHintSupportIsChecked (fst (snd (isBoostHintSupported crashing_power sample_bridge)))"
    using boost_capability_cache [of sample_bridge crashing_power "[]"] fresh cra by blast+
  show ?thesis
    using flags fresh uns cra one run caching failing by blast
qed

section \<open>The constructor\<close>

lemma open_modules_all_fail:
  assumes "\<forall>m \<in> set ms. openHal c reg (fst m) = None" and "mDevice s = None"
  shows "open_modules c reg ms s = (s, map (\<lambda>m. OpenHal (fst m)) ms)"
  using assms
proof (induction ms arbitrary: s)
  case Nil
  show ?case by simp
next
  case (Cons m ms)
  obtain n f where m: "m = (n, f)" by (cases m)
  from Cons.prems have fail: "openHal c reg n = None" by (simp add: m)
  have same: "s\<lparr>mDevice := None\<rparr> = s" using Cons.prems(2) by simp
  from Cons.prems have "open_modules c reg ms s = (s, map (\<lambda>m. OpenHal (fst m)) ms)"
    by (intro Cons.IH) simp_all
  then show ?case by (simp add: m fail same Cons.prems(2))
qed

lemma open_modules_first_success:
  assumes "\<forall>m \<in> set pre. openHal c reg (fst m) = None"
      and "openHal c reg n = Some d" and "mDevice s = None"
  shows "open_modules c reg (pre @ (n, f) # post) s =
           (s\<lparr>mDevice := Some d, mFod := f\<rparr>,
            map (\<lambda>m. OpenHal (fst m)) pre @
              [OpenHal n, SetProperty ''persist.vendor.sys.fp.vendor'' n])"
  using assms
proof (induction pre arbitrary: s)
  case Nil
  then show ?case by simp
next
  case (Cons m pre)
  obtain n' f' where m: "m = (n', f')" by (cases m)
  from Cons.prems have fail: "openHal c reg n' = None" by (simp add: m)
  have same: "s\<lparr>mDevice := None\<rparr> = s" using Cons.prems(3) by simp
  from Cons.prems have "open_modules c reg (pre @ (n, f) # post) s =
           (s\<lparr>mDevice := Some d, mFod := f\<rparr>,
            map (\<lambda>m. OpenHal (fst m)) pre @
              [OpenHal n, SetProperty ''persist.vendor.sys.fp.vendor'' n])"
    by (intro Cons.IH) simp_all
  then show ?case by (simp add: m fail same Cons.prems(3))
qed

text \<open>
  Claim C7. The module table is \<^verbatim>\<open>fpc\<close>, \<^verbatim>\<open>fpc_fod\<close>, \<^verbatim>\<open>goodix\<close>, \<^verbatim>\<open>goodix_fod\<close>,
  \<^verbatim>\<open>goodix_fod6\<close>, \<^verbatim>\<open>silead\<close>, \<^verbatim>\<open>syna\<close>, in this order. If the entries before some
  entry all fail to open and that entry opens, the constructor has tried exactly these
  entries in table order, \<^verbatim>\<open>mDevice\<close> is the device opened, \<^verbatim>\<open>mFod\<close> is the flag of that
  entry, the property \<^verbatim>\<open>persist.vendor.sys.fp.vendor\<close> is set to its name, and the watcher is
  started when the flag is set. If no entry opens, the constructor has tried all seven,
  returns with \<^verbatim>\<open>mDevice\<close> null and every other member as initialised, and has not set the
  vendor property. The constructor returns in every case.
\<close>

theorem constructor_opens_first_module:
  "map fst kModules =
     [''fpc'', ''fpc_fod'', ''goodix'', ''goodix_fod'', ''goodix_fod6'', ''silead'', ''syna''] \<and>
   (kModules = pre @ (n, f) # post \<longrightarrow> (\<forall>m \<in> set pre. openHal c reg (fst m) = None) \<longrightarrow>
    openHal c reg n = Some d \<longrightarrow>
      BiometricsFingerprint_new c reg mFod0 =
        ((initial_bridge mFod0)\<lparr>mDevice := Some d, mFod := f\<rparr>,
         map (\<lambda>m. OpenHal (fst m)) pre @
           [OpenHal n, SetProperty ''persist.vendor.sys.fp.vendor'' n] @
           (if f then [StartFodWatcher, SetProperty ''ro.hardware.fp.fod'' ''true''] else []))) \<and>
   ((\<forall>m \<in> set kModules. openHal c reg (fst m) = None) \<longrightarrow>
      BiometricsFingerprint_new c reg mFod0 =
        (initial_bridge mFod0,
         map (\<lambda>m. OpenHal (fst m)) kModules @
           (if mFod0 then [StartFodWatcher, SetProperty ''ro.hardware.fp.fod'' ''true'']
            else [])) \<and>
      mDevice (fst (BiometricsFingerprint_new c reg mFod0)) = None)"
proof -
  have init: "mDevice (initial_bridge mFod0) = None" "mFod (initial_bridge mFod0) = mFod0"
    by (simp_all add: initial_bridge_def)
  have names: "map fst kModules =
     [''fpc'', ''fpc_fod'', ''goodix'', ''goodix_fod'', ''goodix_fod6'', ''silead'', ''syna'']"
    by (simp add: kModules_def)
  have first: "BiometricsFingerprint_new c reg mFod0 =
        ((initial_bridge mFod0)\<lparr>mDevice := Some d, mFod := f\<rparr>,
         map (\<lambda>m. OpenHal (fst m)) pre @
           [OpenHal n, SetProperty ''persist.vendor.sys.fp.vendor'' n] @
           (if f then [StartFodWatcher, SetProperty ''ro.hardware.fp.fod'' ''true''] else []))"
    if "kModules = pre @ (n, f) # post" "\<forall>m \<in> set pre. openHal c reg (fst m) = None"
       "openHal c reg n = Some d"
    using open_modules_first_success [OF that(2) that(3) init(1), of f post]
    by (simp add: BiometricsFingerprint_new_def that(1))
  have none: "BiometricsFingerprint_new c reg mFod0 =
        (initial_bridge mFod0,
         map (\<lambda>m. OpenHal (fst m)) kModules @
           (if mFod0 then [StartFodWatcher, SetProperty ''ro.hardware.fp.fod'' ''true'']
            else []))"
    if "\<forall>m \<in> set kModules. openHal c reg (fst m) = None"
    using open_modules_all_fail [OF that init(1)]
    by (simp add: BiometricsFingerprint_new_def init)
  show ?thesis using names first none init by auto
qed

theorem constructor_opens_first_module_witness:
  "kModules = [(''fpc'', False), (''fpc_fod'', True), (''goodix'', False)] @
     (''goodix_fod'', True) # [(''goodix_fod6'', True), (''silead'', False), (''syna'', True)] \<and>
   openHal android_consts goodix_fod_registry ''fpc'' = None \<and>
   openHal android_consts goodix_fod_registry ''fpc_fod'' = None \<and>
   openHal android_consts goodix_fod_registry ''goodix'' = None \<and>
   openHal android_consts goodix_fod_registry ''goodix_fod'' = Some sample_device \<and>
   BiometricsFingerprint_new android_consts goodix_fod_registry False =
     ((initial_bridge False)\<lparr>mDevice := Some sample_device, mFod := True\<rparr>,
      [OpenHal ''fpc'', OpenHal ''fpc_fod'', OpenHal ''goodix'', OpenHal ''goodix_fod'',
       SetProperty ''persist.vendor.sys.fp.vendor'' ''goodix_fod'',
       StartFodWatcher, SetProperty ''ro.hardware.fp.fod'' ''true'']) \<and>
   BiometricsFingerprint_new android_consts empty_registry False =
     (initial_bridge False,
      [OpenHal ''fpc'', OpenHal ''fpc_fod'', OpenHal ''goodix'', OpenHal ''goodix_fod'',
       OpenHal ''goodix_fod6'', OpenHal ''silead'', OpenHal ''syna''])"
proof -
  let ?pre = "[(''fpc'', False), (''fpc_fod'', True), (''goodix'', False)]"
  let ?post = "[(''goodix_fod6'', True), (''silead'', False), (''syna'', True)]"
  have split: "kModules = ?pre @ (''goodix_fod'', True) # ?post"
    by (simp add: kModules_def)
  have fails: "openHal android_consts goodix_fod_registry ''fpc'' = None"
    "openHal android_consts goodix_fod_registry ''fpc_fod'' = None"
    "openHal android_consts goodix_fod_registry ''goodix'' = None"
    by (simp_all add: openHal_def goodix_fod_registry_def)
  then have pre: "\<forall>m \<in> set ?pre. openHal android_consts goodix_fod_registry (fst m) = None"
    by simp
  have opens: "openHal android_consts goodix_fod_registry ''goodix_fod'' = Some sample_device"
    by (simp add: openHal_def goodix_fod_registry_def sample_device_def android_consts_def)
  have all_fail: "\<forall>m \<in> set kModules. openHal android_consts empty_registry (fst m) = None"
    by (simp add: openHal_def empty_registry_def)
  have "BiometricsFingerprint_new android_consts goodix_fod_registry False =
     ((initial_bridge False)\<lparr>mDevice := Some sample_device, mFod := True\<rparr>,
      map (\<lambda>m. OpenHal (fst m)) ?pre @
        [OpenHal ''goodix_fod'', SetProperty ''persist.vendor.sys.fp.vendor'' ''goodix_fod''] @
        (if True then [StartFodWatcher, SetProperty ''ro.hardware.fp.fod'' ''true''] else []))"
    using split pre opens
      constructor_opens_first_module
        [of ?pre "''goodix_fod''" True ?post android_consts goodix_fod_registry
            sample_device False]
    by simp
  then have found: "BiometricsFingerprint_new android_consts goodix_fod_registry False =
     ((initial_bridge False)\<lparr>mDevice := Some sample_device, mFod := True\<rparr>,
      [OpenHal ''fpc'', OpenHal ''fpc_fod'', OpenHal ''goodix'', OpenHal ''goodix_fod'',
       SetProperty ''persist.vendor.sys.fp.vendor'' ''goodix_fod'',
       StartFodWatcher, SetProperty ''ro.hardware.fp.fod'' ''true''])"
    by simp
  have "BiometricsFingerprint_new android_consts empty_registry False =
     (initial_bridge False,
      map (\<lambda>m. OpenHal (fst m)) kModules @
        (if False then [StartFodWatcher, SetProperty ''ro.hardware.fp.fod'' ''true''] else []))"
    using all_fail
      constructor_opens_first_module
        [of ?pre "''goodix_fod''" True ?post android_consts empty_registry
            sample_device False]
    by simp
  then have inert: "BiometricsFingerprint_new android_consts empty_registry False =
     (initial_bridge False,
      [OpenHal ''fpc'', OpenHal ''fpc_fod'', OpenHal ''goodix'', OpenHal ''goodix_fod'',
       OpenHal ''goodix_fod6'', OpenHal ''silead'', OpenHal ''syna''])"
    by (simp add: kModules_def)
  show ?thesis
    using split fails opens found inert by blast
qed

section \<open>The watcher thread\<close>

text \<open>
  When \<^verbatim>\<open>mFod\<close> starts out false, the constructor starts the watcher only on a bridge
  whose driver was opened: the loop sets \<^verbatim>\<open>mFod\<close> only where \<^verbatim>\<open>mDevice\<close> is not null.
\<close>

lemma open_modules_shape:
  assumes "mDevice s = None"
  shows "(mDevice (fst (open_modules c reg ms s)) = None \<longrightarrow>
            mFod (fst (open_modules c reg ms s)) = mFod s) \<and>
         StartFodWatcher \<notin> set (snd (open_modules c reg ms s))"
  using assms
proof (induction ms arbitrary: s)
  case Nil
  then show ?case by simp
next
  case (Cons m ms)
  obtain n f where m: "m = (n, f)" by (cases m)
  show ?case
  proof (cases "openHal c reg n")
    case None
    have same: "s\<lparr>mDevice := None\<rparr> = s" using Cons.prems by simp
    from Cons.IH [OF Cons.prems] show ?thesis
      by (simp add: m None same Cons.prems case_prod_beta)
  next
    case (Some d)
    then show ?thesis by (simp add: m)
  qed
qed

lemma watcher_started_with_driver:
  assumes "StartFodWatcher \<in> set (snd (BiometricsFingerprint_new c reg False))"
  shows "mDevice (fst (BiometricsFingerprint_new c reg False)) \<noteq> None"
proof -
  let ?r = "open_modules c reg kModules (initial_bridge False)"
  have init: "mDevice (initial_bridge False) = None" "\<not> mFod (initial_bridge False)"
    by (simp_all add: initial_bridge_def)
  note shape = open_modules_shape [OF init(1), of c reg kModules]
  from assms shape have "mFod (fst ?r)"
    by (auto simp: BiometricsFingerprint_new_def case_prod_beta split: if_splits)
  with shape init have "mDevice (fst ?r) \<noteq> None" by auto
  then show ?thesis
    by (simp add: BiometricsFingerprint_new_def case_prod_beta)
qed

lemma watcher_loop_open:
  assumes "mDevice s = Some d"
  shows "watcher_loop s wakes =
     (Waiting_in_poll,
      concat (map (\<lambda>w. if poll_rc w <s 0 then []
                        else [DriverExtCmd 10
                                (if lseek_rc w = 0 \<and> read_rc w = 1 \<and> read_c w \<noteq> CHR ''0''
                                 then 1 else 0)]) wakes))"
proof (induction wakes)
  case Nil
  show ?case by simp
next
  case (Cons w ws)
  then show ?case
    using assms
    by (simp add: extCmd_def readBool_def COMMAND_NIT_def PARAM_NIT_FOD_def PARAM_NIT_NONE_def)
qed

text \<open>
  Claim C6. If opening the kernel file fails (a negative descriptor), the watcher thread
  returns at once and issues nothing. Otherwise, on a bridge with an open driver, the
  thread never returns: after any number of wakes it is waiting in \<^verbatim>\<open>poll\<close> again. Each
  wake with a non-negative \<^verbatim>\<open>poll\<close> result issues exactly one extended command 10, with
  parameter 1 if the seek and the one-character read succeed and the character is not
  \<^verbatim>\<open>'0'\<close>, and parameter 0 if the character is \<^verbatim>\<open>'0'\<close> or the seek or the read fails; a wake
  with a negative \<^verbatim>\<open>poll\<close> result issues nothing. What a turn does depends on that wake
  alone, so failures neither delay nor end the loop.
\<close>

theorem fod_watcher_turns:
  "(fd <s 0 \<longrightarrow> fod_watcher s fd wakes = (Returned, [])) \<and>
   (\<not> fd <s 0 \<longrightarrow> mDevice s = Some d \<longrightarrow>
      fod_watcher s fd wakes =
        (Waiting_in_poll,
         concat (map (\<lambda>w. if poll_rc w <s 0 then []
                           else [DriverExtCmd 10
                                   (if lseek_rc w = 0 \<and> read_rc w = 1 \<and> read_c w \<noteq> CHR ''0''
                                    then 1 else 0)]) wakes)))"
  by (simp add: fod_watcher_def watcher_loop_open)

theorem fod_watcher_turns_witness:
  "(- 1 :: int32) <s 0 \<and>
   fod_watcher sample_bridge (- 1) [sample_wake 1 1 CHR ''1''] = (Returned, []) \<and>
   \<not> (3 :: int32) <s 0 \<and> mDevice sample_bridge = Some sample_device \<and>
   fod_watcher sample_bridge 3
     [sample_wake 1 1 CHR ''1'', sample_wake 1 0 CHR ''1'', sample_wake (- 1) 1 CHR ''1'',
      sample_wake 1 1 CHR ''0'', sample_wake 1 (- 1) CHR ''1'', sample_wake 1 1 CHR ''1''] =
     (Waiting_in_poll,
      [DriverExtCmd 10 1, DriverExtCmd 10 0, DriverExtCmd 10 0, DriverExtCmd 10 0,
       DriverExtCmd 10 1])"
proof -
  let ?wakes = "[sample_wake 1 1 CHR ''1'', sample_wake 1 0 CHR ''1'',
      sample_wake (- 1) 1 CHR ''1'', sample_wake 1 1 CHR ''0'', sample_wake 1 (- 1) CHR ''1'',
      sample_wake 1 1 CHR ''1'']"
  have neg: "(- 1 :: int32) <s 0" by (simp add: word_sless_alt)
  have pos: "\<not> (3 :: int32) <s 0" by (simp add: word_sless_alt)
  have dev: "mDevice sample_bridge = Some sample_device"
    by (simp add: sample_bridge_def)
  have closed: "fod_watcher sample_bridge (- 1) [sample_wake 1 1 CHR ''1''] = (Returned, [])"
    using fod_watcher_turns [of "- 1" sample_bridge "[sample_wake 1 1 CHR ''1'']" sample_device]
      neg
    by blast
  have "fod_watcher sample_bridge 3 ?wakes =
        (Waiting_in_poll,
         concat (map (\<lambda>w. if poll_rc w <s 0 then []
                           else [DriverExtCmd 10
                                   (if lseek_rc w = 0 \<and> read_rc w = 1 \<and> read_c w \<noteq> CHR ''0''
                                    then 1 else 0)]) ?wakes))"
    using fod_watcher_turns [of 3 sample_bridge ?wakes sample_device] pos dev
    by blast
  then have running: "fod_watcher sample_bridge 3 ?wakes =
     (Waiting_in_poll,
      [DriverExtCmd 10 1, DriverExtCmd 10 0, DriverExtCmd 10 0, DriverExtCmd 10 0,
       DriverExtCmd 10 1])"
    by (simp add: sample_wake_def word_sless_alt)
  show ?thesis
    using neg pos dev closed running by blast
qed

section \<open>Selecting the variant\<close>

lemma search_variant_find:
  "search_variant r vs hwc sku =
     find (\<lambda>v. field_matches r (hwc_value v) hwc \<and> field_matches r (sku_value v) sku) vs"
  by (induction vs) simp_all

text \<open>
  Claim C8. The selector returns the first record of the three-record table, in declaration
  order, whose match fields match. For the hardware id \<^verbatim>\<open>INDIA\<close> this is the raphaelin
  record, whatever the SKU. For a hardware id that matches the non-empty hardware field of
  no record it is the last record, whose two match fields are empty. Both hold under either
  rule of comparison.
\<close>

theorem variant_selector:
  "vendor_load_properties r hwc sku =
     find (\<lambda>v. field_matches r (hwc_value v) hwc \<and> field_matches r (sku_value v) sku)
       variants \<and>
   variants = [raphaelin_info, raphael_global_info, raphael_info] \<and>
   vendor_load_properties r ''INDIA'' sku = Some raphaelin_info \<and>
   ((\<forall>v \<in> set variants. hwc_value v \<noteq> [] \<longrightarrow> \<not> field_matches r (hwc_value v) hwc) \<longrightarrow>
      vendor_load_properties r hwc sku = Some (last variants)) \<and>
   last variants = raphael_info \<and> hwc_value raphael_info = [] \<and> sku_value raphael_info = []"
proof -
  have india: "vendor_load_properties r ''INDIA'' sku = Some raphaelin_info"
    by (cases r)
      (simp_all add: vendor_load_properties_def variants_def raphaelin_info_def
        field_matches_def)
  have fallback: "vendor_load_properties r hwc sku = Some (last variants)"
    if "\<forall>v \<in> set variants. hwc_value v \<noteq> [] \<longrightarrow> \<not> field_matches r (hwc_value v) hwc"
  proof -
    from that have a: "\<not> field_matches r ''INDIA'' hwc" "\<not> field_matches r ''GLOBAL'' hwc"
      by (simp_all add: variants_def raphaelin_info_def raphael_global_info_def)
    show ?thesis
      using a
      by (simp add: vendor_load_properties_def variants_def raphaelin_info_def
          raphael_global_info_def raphael_info_def field_matches_def)
  qed
  show ?thesis
    using india fallback
    by (simp add: search_variant_find vendor_load_properties_def variants_def raphael_info_def)
qed

theorem variant_selector_witness:
  "vendor_load_properties By_equality ''INDIA'' ''std'' = Some raphaelin_info \<and>
   vendor_load_properties By_prefix ''INDIA'' [] = Some raphaelin_info \<and>
   \<not> field_matches By_equality ''INDIA'' ''CN'' \<and> \<not> field_matches By_equality ''GLOBAL'' ''CN'' \<and>
   vendor_load_properties By_equality ''CN'' ''std'' = Some raphael_info \<and>
   vendor_load_properties By_equality ''GLOBAL'' ''std'' = Some raphael_global_info"
proof -
  have no: "\<not> field_matches By_equality ''INDIA'' ''CN''"
    "\<not> field_matches By_equality ''GLOBAL'' ''CN''"
    by (simp_all add: field_matches_def)
  then have unmatched:
    "\<forall>v \<in> set variants. hwc_value v \<noteq> [] \<longrightarrow> \<not> field_matches By_equality (hwc_value v) ''CN''"
    by (simp add: variants_def raphaelin_info_def raphael_global_info_def raphael_info_def)
  note eq = variant_selector [of By_equality "''CN''" "''std''"]
  note pre = variant_selector [of By_prefix "''CN''" "[]"]
  have india: "vendor_load_properties By_equality ''INDIA'' ''std'' = Some raphaelin_info"
    "vendor_load_properties By_prefix ''INDIA'' [] = Some raphaelin_info"
    using eq pre by blast+
  have "vendor_load_properties By_equality ''CN'' ''std'' = Some (last variants)"
    "last variants = raphael_info"
    using eq unmatched by blast+
  then have fallback: "vendor_load_properties By_equality ''CN'' ''std'' = Some raphael_info"
    by simp
  have "vendor_load_properties By_equality ''GLOBAL'' ''std'' =
      find (\<lambda>v. field_matches By_equality (hwc_value v) ''GLOBAL'' \<and>
                 field_matches By_equality (sku_value v) ''std'') variants"
    using variant_selector [of By_equality "''GLOBAL''" "''std''"] by blast
  then have global: "vendor_load_properties By_equality ''GLOBAL'' ''std'' = Some raphael_global_info"
    by (simp add: variants_def raphaelin_info_def raphael_global_info_def field_matches_def)
  show ?thesis
    using no india fallback global by blast
qed

end
